(* ===== verification/Prelude.thy ===== *)
theory Prelude
  imports Complex_Main "HOL-Library.Multiset"
begin

text \<open>
  Shared vocabulary of the development: the JavaScript exception the program can
  raise, the collection \<open>eval_simps\<close> of rules that evaluate the model on concrete
  inputs (distance tests with square roots, means of point lists), and generic
  lemmas on lists, filters and multisets that the component theories share.
\<close>

section \<open>JavaScript errors\<close>

text \<open>
  The exceptions a run can raise: the \<open>TypeError\<close> of a property read on
  \<open>undefined\<close> (\<open>point.x\<close> with \<open>point = undefined\<close>), the rejection of a
  data file that cannot be opened (\<open>FileError\<close>, carrying the path), and the
  \<open>SyntaxError\<close> of parsing a text that is not JSON.
\<close>

datatype js_error = TypeError string | FileError string | SyntaxError string

type_synonym 'a js_result = "js_error + 'a"

named_theorems eval_simps "rules that evaluate the model on concrete inputs"

section \<open>Square roots against a radius\<close>

lemma sqrt_le_iff_square:
  assumes "0 \<le> r"
  shows "sqrt a \<le> r \<longleftrightarrow> a \<le> r\<^sup>2"
proof -
  have "sqrt (r\<^sup>2) = r" using assms by simp
  then show ?thesis by (metis real_sqrt_le_iff)
qed

lemma sqrt_nonneg_le_neg:
  assumes "0 \<le> a" and "r < 0"
  shows "\<not> sqrt a \<le> r"
  using assms real_sqrt_ge_zero by fastforce

section \<open>Lists filtered by a predicate and its negation\<close>

lemma mset_filter_compl [simp]:
  "mset (filter P xs) + mset (filter (\<lambda>a. \<not> P a) xs) = mset xs"
  by (induction xs) auto

lemma filter_compl_shorter:
  assumes "filter P xs \<noteq> []"
  shows "length (filter (\<lambda>a. \<not> P a) xs) < length xs"
proof -
  from assms obtain a where "a \<in> set xs" and "P a"
    by (metis filter_False)
  then show ?thesis by (simp add: length_filter_less)
qed

lemma set_filter_compl:
  "set (filter P xs) \<union> set (filter (\<lambda>a. \<not> P a) xs) = set xs"
  by auto


lemma filter_notin_filter:
  "filter (\<lambda>a. a \<notin> set (filter P xs)) xs = filter (\<lambda>a. \<not> P a) xs"
  by (rule filter_cong) auto

lemma mset_le_concat_map: "a \<in> set xs \<Longrightarrow> mset (f a) \<subseteq># mset (concat (map f xs))"
proof (induction xs)
  case (Cons b xs)
  then show ?case
    by (auto intro: subset_mset.order_trans [OF _ mset_subset_eq_add_right])
qed simp

text \<open>The mean of a non-empty list of reals lies between any bounds of its elements.\<close>

lemma mean_bounds:
  fixes xs :: "real list"
  assumes "xs \<noteq> []" and "\<forall>v\<in>set xs. lo \<le> v \<and> v \<le> hi"
  shows "lo \<le> sum_list xs / real (length xs) \<and> sum_list xs / real (length xs) \<le> hi"
proof -
  have n: "0 < real (length xs)" using assms(1) by simp
  have "(\<Sum>v\<leftarrow>xs. lo) \<le> (\<Sum>v\<leftarrow>xs. v)" by (rule sum_list_mono) (use assms(2) in auto)
  then have lo: "real (length xs) * lo \<le> sum_list xs" by (simp add: sum_list_triv)
  have "(\<Sum>v\<leftarrow>xs. v) \<le> (\<Sum>v\<leftarrow>xs. hi)" by (rule sum_list_mono) (use assms(2) in auto)
  then have hi: "sum_list xs \<le> real (length xs) * hi" by (simp add: sum_list_triv)
  show ?thesis using n lo hi by (simp add: pos_le_divide_eq pos_divide_le_eq mult.commute)
qed

end
