(* ===== verification/Constants.thy ===== *)
theory Constants
  imports Prelude
begin

text \<open>
  The module \<^verbatim>\<open>lib/constants.js\<close>: the canvas size, the two parameters of
  the scan (\<open>SCAN_RADIUS\<close>, \<open>RADIUS_INCREASE\<close>), the geographic bounding box of
  Berlin and its extent, and the container class \<open>Point\<close>. JavaScript numbers are
  modelled as reals (no rounding); the decimal literals of the source are exact
  rationals here.
\<close>

definition berlinRatio :: real where
  "berlinRatio = 1050 / 1280"

definition width :: real where
  "width = 700"

definition height :: real where
  "height = width * berlinRatio"

definition RADIUS_INCREASE :: real where
  "RADIUS_INCREASE = 2"

definition SCAN_RADIUS :: real where
  "SCAN_RADIUS = 4"

definition canvasWidth :: real where
  "canvasWidth = width + 10"

definition canvasHeight :: real where
  "canvasHeight = height + 10"

definition WESTLON :: real where
  "WESTLON = 12.9638671875"

definition NORTHLAT :: real where
  "NORTHLAT = 52.70468296296834"

definition SOUTHLAT :: real where
  "SOUTHLAT = 52.338695481504814"

definition EASTLON :: real where
  "EASTLON = 13.8153076171875"

definition expansionHorizontal :: real where
  "expansionHorizontal = EASTLON - WESTLON"

definition expansionVertical :: real where
  "expansionVertical = NORTHLAT - SOUTHLAT"

text \<open>
  The names under which \<^verbatim>\<open>module.exports\<close> publishes the bounding box:
  the projection reads \<open>left\<close> and \<open>bottom\<close>.
\<close>

definition left :: real where
  "left = WESTLON"

definition top :: real where
  "top = NORTHLAT"

definition right :: real where
  "right = EASTLON"

definition bottom :: real where
  "bottom = SOUTHLAT"

text \<open>\<^verbatim>\<open>class Point { x; y; }\<close>: a canvas point, compared by coordinates.\<close>

record point =
  x :: real
  y :: real

lemmas constants_defs [eval_simps] =
  berlinRatio_def width_def height_def RADIUS_INCREASE_def SCAN_RADIUS_def
  canvasWidth_def canvasHeight_def WESTLON_def NORTHLAT_def SOUTHLAT_def EASTLON_def
  expansionHorizontal_def expansionVertical_def left_def top_def right_def bottom_def

lemma expansion_pos: "0 < expansionHorizontal" "0 < expansionVertical"
  by (simp_all add: constants_defs)

lemma canvas_size_pos: "0 < width" "0 < height"
  by (simp_all add: constants_defs)

end
