(* ===== verification/Projection.thy ===== *)
theory Projection
  imports Constants
begin

text \<open>
  The geographic projection of \<^verbatim>\<open>lib/drawMarketsAndOutline.js\<close>: \<open>calcX\<close>
  and \<open>calcY\<close> map longitude and latitude linearly onto the canvas (the \<open>y\<close> axis
  inverted so that north is up), \<open>toPoints\<close> projects the market records
  \<open>{type, lon, lat}\<close> of \<^verbatim>\<open>maerkte2.json\<close>, and
  \<open>fromGeoJsonCoordinatesToPoints\<close> the GeoJSON point features of
  \<^verbatim>\<open>maerkte.json\<close>. The constants \<open>left\<close> and \<open>bottom\<close> that the source
  destructures are the exported aliases of \<open>WESTLON\<close> and \<open>SOUTHLAT\<close>. A GeoJSON position is a pair
  \<open>(lon, lat)\<close>; the record field \<open>type\<close> is never read and is not modelled.
\<close>

definition calcX :: "real \<Rightarrow> real" where
  "calcX lon = (let xFactor = (lon - left) / expansionHorizontal in width * xFactor)"

definition calcY :: "real \<Rightarrow> real" where
  "calcY lat = (let yFactor = (lat - bottom) / expansionVertical in height * (1 - yFactor))"

record coordinate =
  lon :: real
  lat :: real

definition toPoints :: "coordinate list \<Rightarrow> point list" where
  "toPoints coordinates = map (\<lambda>coord. \<lparr>x = calcX (lon coord), y = calcY (lat coord)\<rparr>) coordinates"

record point_geometry =
  coordinates :: "real \<times> real"

record point_feature =
  geometry :: point_geometry

definition fromGeoJsonCoordinatesToPoints :: "point_feature list \<Rightarrow> point list" where
  "fromGeoJsonCoordinatesToPoints features =
     (let coords = map (\<lambda>feature. coordinates (geometry feature)) features
      in map (\<lambda>coord. \<lparr>x = calcX (fst coord), y = calcY (snd coord)\<rparr>) coords)"

text \<open>The inverse maps, from canvas coordinates back to degrees.\<close>

definition lonOfX :: "real \<Rightarrow> real" where
  "lonOfX px = WESTLON + px / width * expansionHorizontal"

definition latOfY :: "real \<Rightarrow> real" where
  "latOfY py = SOUTHLAT + (1 - py / height) * expansionVertical"

lemma calcX_affine: "calcX lg = width / expansionHorizontal * (lg - WESTLON)"
  by (simp add: calcX_def left_def)

lemma calcY_affine: "calcY lt = height - height / expansionVertical * (lt - SOUTHLAT)"
  by (simp add: calcY_def bottom_def algebra_simps)

lemma projection_scale_pos: "0 < width / expansionHorizontal" "0 < height / expansionVertical"
  using expansion_pos canvas_size_pos by simp_all

lemma calc_in_canvas:
  assumes "WESTLON \<le> lg" "lg \<le> EASTLON" "SOUTHLAT \<le> lt" "lt \<le> NORTHLAT"
  shows "0 \<le> calcX lg \<and> calcX lg \<le> width \<and> 0 \<le> calcY lt \<and> calcY lt \<le> height"
proof -
  have ex: "0 < expansionHorizontal" "0 < expansionVertical" by (rule expansion_pos)+
  let ?f = "(lg - WESTLON) / expansionHorizontal" and ?g = "(lt - SOUTHLAT) / expansionVertical"
  have f: "0 \<le> ?f" "?f \<le> 1"
    using assms(1,2) ex(1) by (simp_all add: expansionHorizontal_def)
  have g: "0 \<le> ?g" "?g \<le> 1"
    using assms(3,4) ex(2) by (simp_all add: expansionVertical_def)
  have cx: "calcX lg = width * ?f" and cy: "calcY lt = height * (1 - ?g)"
    unfolding calcX_def calcY_def Let_def left_def bottom_def by (rule refl)+
  have w: "0 \<le> width" "0 \<le> height" using canvas_size_pos by simp_all
  have "0 \<le> width * ?f" using w(1) f(1) by (rule mult_nonneg_nonneg)
  moreover have "width * ?f \<le> width" using f(2) w(1) by (rule mult_left_le)
  moreover have "0 \<le> height * (1 - ?g)" using w(2) g(2) by (intro mult_nonneg_nonneg) simp_all
  moreover have "height * (1 - ?g) \<le> height" using g(1) w(2) by (intro mult_left_le) simp_all
  ultimately show ?thesis by (simp only: cx cy)
qed

subsection \<open>Claims\<close>

text \<open>
  C19 (bounds). A coordinate inside the bounding box is projected inside the canvas.
\<close>

theorem projection_bounds:
  assumes "WESTLON \<le> lg" "lg \<le> EASTLON" "SOUTHLAT \<le> lt" "lt \<le> NORTHLAT"
  shows "0 \<le> calcX lg \<and> calcX lg \<le> width \<and> 0 \<le> calcY lt \<and> calcY lt \<le> height"
  using assms by (rule calc_in_canvas)

text \<open>
  C20 (roundtrip). The projection is invertible: \<open>lonOfX\<close> and \<open>latOfY\<close> undo
  \<open>calcX\<close> and \<open>calcY\<close>, and the other way round.
\<close>

theorem projection_roundtrip:
  "lonOfX (calcX lg) = lg \<and> calcX (lonOfX px) = px \<and>
   latOfY (calcY lt) = lt \<and> calcY (latOfY py) = py"
  using expansion_pos canvas_size_pos
  by (simp add: lonOfX_def latOfY_def calcX_def calcY_def left_def bottom_def field_simps)

text \<open>
  C21 (functional). Orientation: \<open>x\<close> grows eastwards, and \<open>y\<close> grows southwards
  because the canvas \<open>y\<close> axis points down.
\<close>

theorem projection_orientation:
  assumes "lg1 < lg2" and "lt1 < lt2"
  shows "calcX lg1 < calcX lg2 \<and> calcY lt2 < calcY lt1"
proof -
  have "width / expansionHorizontal * (lg1 - WESTLON) < width / expansionHorizontal * (lg2 - WESTLON)"
    using assms(1) projection_scale_pos(1) by (intro mult_strict_left_mono) auto
  moreover have "height / expansionVertical * (lt1 - SOUTHLAT) < height / expansionVertical * (lt2 - SOUTHLAT)"
    using assms(2) projection_scale_pos(2) by (intro mult_strict_left_mono) auto
  ultimately show ?thesis unfolding calcX_affine calcY_affine by (intro conjI) linarith+
qed

text \<open>
  C22 (equivalence). Reading the markers as GeoJSON point features gives the same
  canvas points as reading them as \<open>{lon, lat}\<close> records.
\<close>

theorem fromGeoJson_toPoints:
  "fromGeoJsonCoordinatesToPoints
     (map (\<lambda>c. \<lparr>geometry = \<lparr>coordinates = (lon c, lat c)\<rparr>\<rparr>) cs) = toPoints cs"
  by (simp add: fromGeoJsonCoordinatesToPoints_def toPoints_def)

subsection \<open>Witnesses\<close>

theorem projection_bounds_witness:
  "WESTLON \<le> 13.4 \<and> 13.4 \<le> EASTLON \<and> SOUTHLAT \<le> 52.5 \<and> 52.5 \<le> NORTHLAT \<and>
   0 \<le> calcX 13.4 \<and> calcX 13.4 \<le> width \<and> 0 \<le> calcY 52.5 \<and> calcY 52.5 \<le> height"
proof -
  have h: "WESTLON \<le> 13.4" "13.4 \<le> EASTLON" "SOUTHLAT \<le> 52.5" "52.5 \<le> NORTHLAT"
    by (simp_all add: constants_defs)
  show ?thesis using h projection_bounds [OF h] by simp
qed

theorem projection_orientation_witness:
  "(13 :: real) < 13.5 \<and> (52.4 :: real) < 52.6 \<and> calcX 13 < calcX 13.5 \<and> calcY 52.6 < calcY 52.4"
proof -
  have h: "(13 :: real) < 13.5" "(52.4 :: real) < 52.6" by simp_all
  show ?thesis using h projection_orientation [OF h] by simp
qed

end
