(* ===== verification/Geometry.thy ===== *)
theory Geometry
  imports Constants
begin

text \<open>
  The point helpers of \<^verbatim>\<open>lib/drawMarketsAndOutline.js\<close>: \<open>getDistance\<close>,
  \<open>isPointWithinRadius\<close>, \<open>equals\<close>/\<open>notEquals\<close> and \<open>calculateCenter\<close>.
  A JavaScript value that may be \<open>undefined\<close> (the element \<open>POINTS[0]\<close> of an empty
  list) is a \<open>point option\<close>, \<open>None\<close> standing for \<open>undefined\<close>;
  \<open>calculateCenter\<close> raises the \<open>TypeError\<close> of reading \<open>.x\<close> on it.
\<close>

definition getDistance :: "point \<Rightarrow> point \<Rightarrow> real" where
  "getDistance point1 point2 =
     (let xd = \<bar>x point2 - x point1\<bar>;
          yd = \<bar>y point2 - y point1\<bar>
      in sqrt (xd * xd + yd * yd))"

definition isPointWithinRadius :: "point \<Rightarrow> point \<Rightarrow> real \<Rightarrow> bool" where
  "isPointWithinRadius point center radius = (getDistance point center \<le> radius)"

definition notEquals :: "point \<Rightarrow> point \<Rightarrow> bool" where
  "notEquals point1 point2 = (x point1 \<noteq> x point2 \<or> y point1 \<noteq> y point2)"

definition equals :: "point \<Rightarrow> point \<Rightarrow> bool" where
  "equals point1 point2 = (x point1 = x point2 \<and> y point1 = y point2)"

text \<open>
  \<open>calculateCenter\<close>: the loop summing both axes, then the division by the length.
  The summing loop reads \<open>point.x\<close> of every element in order and throws on the first
  \<open>undefined\<close>.
\<close>

fun sumPoints :: "point option list \<Rightarrow> real \<Rightarrow> real \<Rightarrow> (real \<times> real) js_result" where
  "sumPoints [] xSum ySum = Inr (xSum, ySum)"
| "sumPoints (None # _) xSum ySum =
     Inl (TypeError ''Cannot read properties of undefined (reading x)'')"
| "sumPoints (Some point # points) xSum ySum =
     sumPoints points (xSum + x point) (ySum + y point)"

definition calculateCenter :: "point option list \<Rightarrow> point js_result" where
  "calculateCenter points =
     (case sumPoints points 0 0 of
        Inl e \<Rightarrow> Inl e
      | Inr (xSum, ySum) \<Rightarrow>
          Inr \<lparr>x = xSum / real (length points), y = ySum / real (length points)\<rparr>)"

text \<open>The abstract centre: the coordinate-wise arithmetic mean of a list of points.\<close>

definition centroid :: "point list \<Rightarrow> point" where
  "centroid ps =
     \<lparr>x = sum_list (map x ps) / real (length ps), y = sum_list (map y ps) / real (length ps)\<rparr>"

subsection \<open>Distance\<close>

lemma getDistance_sq: "getDistance p q = sqrt ((x q - x p)\<^sup>2 + (y q - y p)\<^sup>2)"
  by (simp add: getDistance_def Let_def power2_eq_square)

lemma getDistance_nonneg: "0 \<le> getDistance p q"
  by (simp add: getDistance_sq)

lemma getDistance_sym: "getDistance p q = getDistance q p"
  by (simp add: getDistance_sq power2_commute)

lemma getDistance_self [simp]: "getDistance p p = 0"
  by (simp add: getDistance_sq)

lemma isPointWithinRadius_iff [eval_simps]:
  "isPointWithinRadius p c r \<longleftrightarrow> 0 \<le> r \<and> (x c - x p)\<^sup>2 + (y c - y p)\<^sup>2 \<le> r\<^sup>2"
proof (cases "0 \<le> r")
  case True
  then show ?thesis
    by (simp add: isPointWithinRadius_def getDistance_sq sqrt_le_iff_square)
next
  case False
  then show ?thesis
    by (simp add: isPointWithinRadius_def getDistance_sq sqrt_nonneg_le_neg)
qed

lemma isPointWithinRadius_self: "isPointWithinRadius p p r \<longleftrightarrow> 0 \<le> r"
  by (simp add: isPointWithinRadius_def)

lemma isPointWithinRadius_mono:
  "isPointWithinRadius p c r \<Longrightarrow> r \<le> r' \<Longrightarrow> isPointWithinRadius p c r'"
  by (simp add: isPointWithinRadius_def)

subsection \<open>Equality by coordinates is HOL equality\<close>

lemma equals_iff [simp]: "equals p q \<longleftrightarrow> p = q"
  by (auto simp: equals_def intro: point.equality)

lemma notEquals_iff [simp]: "notEquals p q \<longleftrightarrow> p \<noteq> q"
  by (auto simp: notEquals_def intro: point.equality)

subsection \<open>Centre\<close>

lemma sumPoints_Some:
  "sumPoints (map Some ps) a b = Inr (a + sum_list (map x ps), b + sum_list (map y ps))"
  by (induction ps arbitrary: a b) (simp_all add: algebra_simps)

lemma sumPoints_None:
  "None \<in> set ps \<Longrightarrow> sumPoints ps a b = Inl (TypeError ''Cannot read properties of undefined (reading x)'')"
  by (induction ps a b rule: sumPoints.induct) auto

lemma calculateCenter_Some [eval_simps]:
  "calculateCenter (map Some ps) = Inr (centroid ps)"
  by (simp add: calculateCenter_def centroid_def sumPoints_Some)

lemma centroid_single [simp]: "centroid [p] = p"
  by (simp add: centroid_def)

lemmas centroid_eval [eval_simps] = centroid_def

lemma centroid_box:
  assumes "A \<noteq> []" and "\<forall>p\<in>set A. x0 \<le> x p \<and> x p \<le> x1 \<and> y0 \<le> y p \<and> y p \<le> y1"
  shows "x0 \<le> x (centroid A) \<and> x (centroid A) \<le> x1 \<and> y0 \<le> y (centroid A) \<and> y (centroid A) \<le> y1"
  using mean_bounds [of "map x A" x0 x1] mean_bounds [of "map y A" y0 y1] assms
  by (simp add: centroid_def)

subsection \<open>Claims\<close>

text \<open>
  C14 (error). \<open>calculateCenter\<close> on a list holding \<open>undefined\<close> throws the
  \<open>TypeError\<close> of reading \<open>x\<close>; on a list of points it returns their centroid.
\<close>

theorem calculateCenter_result:
  "calculateCenter ps =
     (if None \<in> set ps then Inl (TypeError ''Cannot read properties of undefined (reading x)'')
      else Inr (centroid (map the ps)))"
proof (cases "None \<in> set ps")
  case True
  then show ?thesis by (simp add: calculateCenter_def sumPoints_None)
next
  case False
  then have "ps = map Some (map the ps)"
    by (induction ps) auto
  then have "calculateCenter ps = Inr (centroid (map the ps))"
    by (metis calculateCenter_Some)
  with False show ?thesis by simp
qed

text \<open>
  C27 (functional). \<open>getDistance\<close> is a metric on points: non-negative,
  symmetric, zero exactly between coordinate-equal points, and obeying the triangle
  inequality. Hence \<open>isPointWithinRadius p p r\<close> holds for every \<open>r \<ge> 0\<close>.
\<close>

theorem getDistance_metric:
  "0 \<le> getDistance p q \<and> getDistance p q = getDistance q p \<and>
   (getDistance p q = 0 \<longleftrightarrow> p = q) \<and>
   getDistance p s \<le> getDistance p q + getDistance q s"
proof -
  have e: "getDistance p q = dist (Complex (x q) (y q)) (Complex (x p) (y p))" for p q
    by (simp add: getDistance_sq dist_norm cmod_def)
  have "(getDistance p q = 0) = (p = q)"
    by (auto simp: getDistance_sq intro: point.equality)
  moreover have "getDistance p s \<le> getDistance p q + getDistance q s"
    unfolding e by (metis dist_commute dist_triangle)
  ultimately show ?thesis by (simp add: getDistance_nonneg getDistance_sym)
qed

end
