(* ===== verification/Pending.thy ===== *)
theory Pending
  imports Geometry
begin

text \<open>
  The operations of \<^verbatim>\<open>lib/drawMarketsAndOutline.js\<close> on the pending list
  \<open>POINTS\<close>, the module-global array of points not yet assigned to a cluster.
  The global is passed explicitly: \<open>removePoint\<close> and \<open>removePoints\<close> take the current
  \<open>POINTS\<close> and return the new one (the source assigns it). Removal is by
  coordinate equality, so every copy of a removed point goes.
\<close>

type_synonym pending = "point list"

definition isEmpty :: "point list \<Rightarrow> bool" where
  \<comment> \<open>\<open>!points || points.length === 0\<close>; a list is never \<open>undefined\<close> here\<close>
  "isEmpty points = (length points = 0)"

definition scanForPointsWithinRadius :: "point list \<Rightarrow> point \<Rightarrow> real \<Rightarrow> point list" where
  "scanForPointsWithinRadius points scanCenter r =
     filter (\<lambda>p. isPointWithinRadius p scanCenter r) points"

definition notInList :: "point list \<Rightarrow> point \<Rightarrow> bool" where
  "notInList points point = (length (filter (\<lambda>p. equals point p) points) = 0)"

definition removePoint :: "point \<Rightarrow> pending \<Rightarrow> pending" where
  "removePoint point POINTS = filter (\<lambda>p. notEquals p point) POINTS"

definition removePoints :: "point list \<Rightarrow> pending \<Rightarrow> pending" where
  "removePoints points POINTS = filter (\<lambda>p. notInList points p) POINTS"

subsection \<open>Removal as filtering\<close>

lemma isEmpty_iff [simp]: "isEmpty ps \<longleftrightarrow> ps = []"
  by (simp add: isEmpty_def)

lemma notInList_iff [simp]: "notInList ps p \<longleftrightarrow> p \<notin> set ps"
  by (auto simp: notInList_def filter_empty_conv)

lemma removePoint_filter: "removePoint c P = filter (\<lambda>p. p \<noteq> c) P"
  by (simp add: removePoint_def)

lemma removePoint_Cons_shorter: "length (removePoint c (c # P)) < length (c # P)"
  by (simp add: removePoint_filter le_imp_less_Suc)

lemma removePoint_notin: "c \<notin> set (removePoint c P)"
  by (simp add: removePoint_filter)

lemma removePoints_filter: "removePoints F P = filter (\<lambda>p. p \<notin> set F) P"
  by (simp add: removePoints_def)

lemma removePoints_scan_filter:
  "removePoints (scanForPointsWithinRadius P c r) P =
   filter (\<lambda>p. \<not> isPointWithinRadius p c r) P"
  unfolding removePoints_filter scanForPointsWithinRadius_def by (rule filter_notin_filter)

lemma scan_removePoints_mset:
  "mset (scanForPointsWithinRadius P c r) + mset (removePoints (scanForPointsWithinRadius P c r) P)
   = mset P"
  unfolding removePoints_scan_filter unfolding scanForPointsWithinRadius_def by (rule mset_filter_compl)

lemma scan_removePoints_shorter:
  "scanForPointsWithinRadius P c r \<noteq> [] \<Longrightarrow>
   length (removePoints (scanForPointsWithinRadius P c r) P) < length P"
  unfolding removePoints_scan_filter unfolding scanForPointsWithinRadius_def by (rule filter_compl_shorter)

lemma scan_removePoints_disjoint:
  "set (scanForPointsWithinRadius P c r) \<inter> set (removePoints (scanForPointsWithinRadius P c r) P) = {}"
  unfolding removePoints_scan_filter unfolding scanForPointsWithinRadius_def by auto

text \<open>
  Removing the points a scan found is filtering the complement of the scan: the
  quadratic \<open>notInList\<close> test keeps exactly the points outside the radius.
\<close>

text \<open>
  C13 (equivalence). Removing the points a scan found (\<open>removePoints\<close>, one
  \<open>notInList\<close> search per pending point) keeps exactly the pending points outside
  the scan radius.
\<close>

theorem removePoints_scan:
  "removePoints (scanForPointsWithinRadius P c r) P =
   filter (\<lambda>p. \<not> isPointWithinRadius p c r) P"
  unfolding removePoints_def scanForPointsWithinRadius_def
  by (rule filter_cong) auto

end
