(* ===== verification/Scan.thy ===== *)
theory Scan
  imports Pending
begin

text \<open>
  The growth loop of \<open>findNextPointsToCondense\<close> in
  \<^verbatim>\<open>lib/drawMarketsAndOutline.js\<close>. Its local variables and the global
  \<open>POINTS\<close> form the record \<open>scan_state\<close>; one pass of the \<open>while (keepScanning)\<close>
  body is \<open>scanIteration\<close>, the loop is \<open>scanLoop\<close> (a \<^theory_text>\<open>function\<close>
  whose measure is the pending count plus the flag). The same body as a relation,
  \<open>scan_step\<close>, is the two-state machine GROWING (\<open>keepScanning\<close>) / DONE; its
  reachable states satisfy \<open>scan_inv\<close>. The reference function \<open>grow\<close> is the
  scan stated as plain recursion on the radius; \<open>scanLoop_grow\<close> shows that the loop
  computes it. \<open>findNextPointsToCondense\<close> itself ends the theory.
\<close>

record scan_state =
  POINTS :: pending
  totalFoundPoints :: "point list"
  currentScanRadius :: real
  keepScanning :: bool

definition scanStart :: "real \<Rightarrow> point \<Rightarrow> pending \<Rightarrow> scan_state" where
  "scanStart scanRadius scanCenter P =
     \<lparr>POINTS = P, totalFoundPoints = [scanCenter], currentScanRadius = scanRadius,
      keepScanning = True\<rparr>"

definition scanIteration :: "real \<Rightarrow> point \<Rightarrow> scan_state \<Rightarrow> scan_state" where
  "scanIteration radiusIncrease scanCenter s =
     (let tempFoundPoints =
            scanForPointsWithinRadius (POINTS s) scanCenter (currentScanRadius s);
          s' = (if length tempFoundPoints = 0 then s\<lparr>keepScanning := False\<rparr>
                else s\<lparr>POINTS := removePoints tempFoundPoints (POINTS s),
                       currentScanRadius := currentScanRadius s + radiusIncrease\<rparr>)
      in s'\<lparr>totalFoundPoints := totalFoundPoints s @ tempFoundPoints\<rparr>)"

definition scan_measure :: "scan_state \<Rightarrow> nat" where
  "scan_measure s = length (POINTS s) + (if keepScanning s then 1 else 0)"

lemma scanIteration_decreases:
  "keepScanning s \<Longrightarrow> scan_measure (scanIteration inc c s) < scan_measure s"
  by (auto simp: scanIteration_def scan_measure_def Let_def scan_removePoints_shorter)

function scanLoop :: "real \<Rightarrow> point \<Rightarrow> scan_state \<Rightarrow> scan_state" where
  "scanLoop radiusIncrease scanCenter s =
     (if keepScanning s
      then scanLoop radiusIncrease scanCenter (scanIteration radiusIncrease scanCenter s)
      else s)"
  by pat_completeness auto
termination
  by (relation "measure (\<lambda>(_, _, s). scan_measure s)") (auto simp: scanIteration_decreases)

declare scanLoop.simps [simp del]

subsection \<open>The loop as a step relation\<close>

inductive scan_step :: "real \<Rightarrow> point \<Rightarrow> scan_state \<Rightarrow> scan_state \<Rightarrow> bool" where
  found: "\<lbrakk>keepScanning s; scanForPointsWithinRadius (POINTS s) c (currentScanRadius s) = F;
           F \<noteq> []\<rbrakk> \<Longrightarrow>
          scan_step inc c s
            (s\<lparr>POINTS := removePoints F (POINTS s),
               currentScanRadius := currentScanRadius s + inc,
               totalFoundPoints := totalFoundPoints s @ F\<rparr>)"
| exhausted: "\<lbrakk>keepScanning s; scanForPointsWithinRadius (POINTS s) c (currentScanRadius s) = []\<rbrakk>
          \<Longrightarrow> scan_step inc c s (s\<lparr>keepScanning := False\<rparr>)"

inductive scan_reach :: "real \<Rightarrow> point \<Rightarrow> scan_state \<Rightarrow> scan_state \<Rightarrow> bool"
  for inc c s0 where
  start: "scan_reach inc c s0 s0"
| step: "scan_reach inc c s0 s \<Longrightarrow> scan_step inc c s t \<Longrightarrow> scan_reach inc c s0 t"

inductive_cases scan_step_from: "scan_step inc c s t"

lemma scan_step_iff: "scan_step inc c s t \<longleftrightarrow> keepScanning s \<and> t = scanIteration inc c s"
proof
  assume "scan_step inc c s t"
  then show "keepScanning s \<and> t = scanIteration inc c s"
    by (cases rule: scan_step.cases) (auto simp: scanIteration_def Let_def)
next
  assume a: "keepScanning s \<and> t = scanIteration inc c s"
  show "scan_step inc c s t"
  proof (cases "scanForPointsWithinRadius (POINTS s) c (currentScanRadius s) = []")
    case True
    with a show ?thesis by (auto simp: scanIteration_def intro: scan_step.exhausted)
  next
    case False
    with a show ?thesis
      by (auto simp: scanIteration_def Let_def intro!: scan_step.found)
  qed
qed

subsection \<open>The invariant of the growth loop\<close>

text \<open>
  Started at \<open>scanStart r0 c P0\<close>, every reachable state holds the seed first in
  \<open>totalFoundPoints\<close>, followed by points \<open>G\<close> that together with \<open>POINTS\<close> make
  up \<open>P0\<close> exactly (as multisets) and share no point with it; the points of \<open>G\<close> lie
  within the radius before its last increment; the radius is \<open>r0\<close> plus \<open>k\<close> increments
  with \<open>k\<close> at most \<open>|G|\<close> and zero only when \<open>G\<close> is empty; and once the loop is DONE
  no pending point lies within the radius.
\<close>

definition scan_inv :: "real \<Rightarrow> point \<Rightarrow> real \<Rightarrow> pending \<Rightarrow> scan_state \<Rightarrow> bool" where
  "scan_inv inc c r0 P0 s \<longleftrightarrow>
     (case totalFoundPoints s of
        [] \<Rightarrow> False
      | c' # G \<Rightarrow>
          c' = c \<and>
          mset (POINTS s) + mset G = mset P0 \<and>
          set G \<inter> set (POINTS s) = {} \<and>
          (0 \<le> inc \<longrightarrow> (\<forall>q\<in>set G. isPointWithinRadius q c (currentScanRadius s - inc))) \<and>
          (\<exists>k\<in>{0..length G}. currentScanRadius s = r0 + real k * inc \<and> (k = 0 \<longleftrightarrow> G = [])) \<and>
          (\<not> keepScanning s \<longrightarrow>
             (\<forall>p\<in>set (POINTS s). \<not> isPointWithinRadius p c (currentScanRadius s))))"

lemma scan_inv_start: "scan_inv inc c r0 P0 (scanStart r0 c P0)"
  by (simp add: scan_inv_def scanStart_def)

lemma scan_inv_found:
  assumes inv: "scan_inv inc c r0 P0 s" and K: "keepScanning s"
    and F: "scanForPointsWithinRadius (POINTS s) c (currentScanRadius s) = F" "F \<noteq> []"
  shows "scan_inv inc c r0 P0
           (s\<lparr>POINTS := removePoints F (POINTS s),
              currentScanRadius := currentScanRadius s + inc,
              totalFoundPoints := totalFoundPoints s @ F\<rparr>)"
proof -
  let ?P = "POINTS s" and ?r = "currentScanRadius s"
  obtain G where T: "totalFoundPoints s = c # G"
    and m: "mset ?P + mset G = mset P0" and d: "set G \<inter> set ?P = {}"
    and w: "0 \<le> inc \<longrightarrow> (\<forall>q\<in>set G. isPointWithinRadius q c (?r - inc))"
    and k: "\<exists>k\<in>{0..length G}. ?r = r0 + real k * inc \<and> (k = 0 \<longleftrightarrow> G = [])"
    using inv by (auto simp: scan_inv_def split: list.splits)
  have h: "mset F + mset (removePoints F ?P) = mset ?P"
    using scan_removePoints_mset [of ?P c ?r] F(1) by simp
  have m': "mset (removePoints F ?P) + mset (G @ F) = mset P0"
    using m h by (metis add.commute add.left_commute mset_append)
  have d': "set (G @ F) \<inter> set (removePoints F ?P) = {}"
    using d scan_removePoints_disjoint [of ?P c ?r] F(1) by (auto simp: removePoints_filter)
  have inF: "\<forall>q\<in>set F. isPointWithinRadius q c ?r"
    using F(1) by (auto simp: scanForPointsWithinRadius_def)
  have w': "0 \<le> inc \<longrightarrow> (\<forall>q\<in>set (G @ F). isPointWithinRadius q c (?r + inc - inc))"
    using w inF by (auto intro: isPointWithinRadius_mono)
  from k obtain n where n: "n \<le> length G" "?r = r0 + real n * inc" by auto
  have "Suc n \<in> {0..length (G @ F)} \<and> ?r + inc = r0 + real (Suc n) * inc \<and> (Suc n = 0 \<longleftrightarrow> G @ F = [])"
  proof -
    have "0 < length F" using F(2) by simp
    with n(1) have "Suc n \<le> length (G @ F)" by (simp only: length_append)
    with n(2) F(2) show ?thesis by (simp add: algebra_simps)
  qed
  then have k': "\<exists>k\<in>{0..length (G @ F)}. ?r + inc = r0 + real k * inc \<and> (k = 0 \<longleftrightarrow> G @ F = [])"
    by blast
  show ?thesis
    using m' d' w' k' K by (simp add: scan_inv_def T)
qed

lemma scan_inv_exhausted:
  assumes inv: "scan_inv inc c r0 P0 s"
    and F: "scanForPointsWithinRadius (POINTS s) c (currentScanRadius s) = []"
  shows "scan_inv inc c r0 P0 (s\<lparr>keepScanning := False\<rparr>)"
proof -
  have "\<forall>p\<in>set (POINTS s). \<not> isPointWithinRadius p c (currentScanRadius s)"
    using F by (auto simp: scanForPointsWithinRadius_def filter_empty_conv)
  with inv show ?thesis by (auto simp: scan_inv_def split: list.splits)
qed

lemma scan_step_inv:
  "scan_step inc c s t \<Longrightarrow> scan_inv inc c r0 P0 s \<Longrightarrow> scan_inv inc c r0 P0 t"
  by (induction rule: scan_step.induct) (auto intro: scan_inv_found scan_inv_exhausted)

lemma scanLoop_inv: "scan_inv inc c r0 P0 s \<Longrightarrow> scan_inv inc c r0 P0 (scanLoop inc c s)"
proof (induction inc c s rule: scanLoop.induct)
  case (1 inc c s)
  show ?case
  proof (cases "keepScanning s")
    case True
    then have "scan_step inc c s (scanIteration inc c s)" by (simp add: scan_step_iff)
    with True "1.IH" "1.prems" show ?thesis
      by (simp add: scanLoop.simps [of inc c s] scan_step_inv)
  next
    case False
    with "1.prems" show ?thesis by (simp add: scanLoop.simps [of inc c s])
  qed
qed

text \<open>
  C11 (invariant). Every state the growth machine reaches from its start holds the
  loop invariant \<open>scan_inv\<close> (rule induction over the reachable states).
\<close>

theorem scan_reach_inv:
  "scan_reach inc c (scanStart r0 c P0) s \<Longrightarrow> scan_inv inc c r0 P0 s"
proof (induction rule: scan_reach.induct)
  case start
  show ?case by (rule scan_inv_start)
next
  case (step s t)
  then show ?case by (blast intro: scan_step_inv)
qed

subsection \<open>The loop computes the reference scan\<close>

text \<open>
  \<open>grow inc c r P\<close>: scan \<open>P\<close> around the fixed seed \<open>c\<close> at radius \<open>r\<close>; if
  nothing is found, stop at \<open>r\<close>; otherwise keep what was found and continue on the
  rest at \<open>r + inc\<close>. It returns the points found, the final radius and the rest.
\<close>

function grow :: "real \<Rightarrow> point \<Rightarrow> real \<Rightarrow> pending \<Rightarrow> point list \<times> real \<times> pending" where
  "grow inc c r P =
     (let F = filter (\<lambda>p. isPointWithinRadius p c r) P in
      if F = [] then ([], r, P)
      else (case grow inc c (r + inc) (filter (\<lambda>p. \<not> isPointWithinRadius p c r) P) of
              (G, r', P') \<Rightarrow> (F @ G, r', P')))"
  by pat_completeness auto
termination
  by (relation "measure (\<lambda>(_, _, _, P). length P)") (auto simp: filter_compl_shorter)

declare grow.simps [simp del]

lemma scanLoop_grow:
  assumes "keepScanning s"
  shows "scanLoop inc c s =
           (case grow inc c (currentScanRadius s) (POINTS s) of
              (G, r, P') \<Rightarrow> s\<lparr>POINTS := P', totalFoundPoints := totalFoundPoints s @ G,
                               currentScanRadius := r, keepScanning := False\<rparr>)"
  using assms
proof (induction inc c s rule: scanLoop.induct)
  case (1 inc c s)
  let ?P = "POINTS s" and ?r = "currentScanRadius s"
  let ?F = "filter (\<lambda>p. isPointWithinRadius p c ?r) ?P"
  have loop: "scanLoop inc c s = scanLoop inc c (scanIteration inc c s)"
    using "1.prems" by (simp add: scanLoop.simps [of inc c s])
  show ?case
  proof (cases "?F = []")
    case True
    have "\<not> keepScanning (scanIteration inc c s)"
      using True by (simp add: scanIteration_def scanForPointsWithinRadius_def)
    then have "scanLoop inc c (scanIteration inc c s) = scanIteration inc c s"
      by (simp add: scanLoop.simps)
    with loop True show ?thesis
      by (simp add: grow.simps [of inc c ?r ?P] scanIteration_def scanForPointsWithinRadius_def)
  next
    case False
    obtain G r' P' where g: "grow inc c (?r + inc) (filter (\<lambda>p. \<not> isPointWithinRadius p c ?r) ?P)
                             = (G, r', P')"
      by (metis prod_cases3)
    have it: "scanIteration inc c s =
                s\<lparr>POINTS := filter (\<lambda>p. \<not> isPointWithinRadius p c ?r) ?P,
                  currentScanRadius := ?r + inc, totalFoundPoints := totalFoundPoints s @ ?F\<rparr>"
      using False
      by (simp add: scanIteration_def Let_def scanForPointsWithinRadius_def
                    removePoints_scan_filter [unfolded scanForPointsWithinRadius_def])
    have "keepScanning (scanIteration inc c s)" using "1.prems" it by simp
    with "1.IH" "1.prems" have "scanLoop inc c (scanIteration inc c s) =
        (case grow inc c (currentScanRadius (scanIteration inc c s)) (POINTS (scanIteration inc c s)) of
           (G, r, P') \<Rightarrow> (scanIteration inc c s)\<lparr>POINTS := P',
              totalFoundPoints := totalFoundPoints (scanIteration inc c s) @ G,
              currentScanRadius := r, keepScanning := False\<rparr>)"
      by blast
    with loop it g False show ?thesis
      by (simp add: grow.simps [of inc c ?r ?P])
  qed
qed

text \<open>
  C12 (equivalence). Started on a seed and a pending list, the \<open>while\<close> loop with its
  flag computes the reference recursion \<open>grow\<close>: the points it found after the
  seed, the final radius and the rest of the pending list.
\<close>

corollary scan_loop_equiv:
  "scanLoop i c (scanStart r c P) =
     (case grow i c r P of
        (G, r', P') \<Rightarrow> \<lparr>POINTS = P', totalFoundPoints = c # G, currentScanRadius = r',
                         keepScanning = False\<rparr>)"
  by (simp add: scanLoop_grow scanStart_def split: prod.split)

lemma grow_result:
  assumes g: "grow inc c r0 P0 = (G, r, P2)"
  shows "mset P2 + mset G = mset P0 \<and> set G \<inter> set P2 = {} \<and>
         (0 \<le> inc \<longrightarrow> (\<forall>q\<in>set G. isPointWithinRadius q c (r - inc))) \<and>
         (\<exists>k\<in>{0..length G}. r = r0 + real k * inc \<and> (k = 0 \<longleftrightarrow> G = [])) \<and>
         (\<forall>p\<in>set P2. \<not> isPointWithinRadius p c r)"
proof -
  let ?s = "scanLoop inc c (scanStart r0 c P0)"
  have "scan_inv inc c r0 P0 ?s"
    using scanLoop_inv scan_inv_start by blast
  moreover have "?s = (scanStart r0 c P0)\<lparr>POINTS := P2, totalFoundPoints := [c] @ G,
                         currentScanRadius := r, keepScanning := False\<rparr>"
    using scanLoop_grow [of "scanStart r0 c P0" inc c] g by (simp add: scanStart_def)
  ultimately show ?thesis by (simp add: scan_inv_def scanStart_def)
qed

lemmas grow_mset = grow_result [THEN conjunct1]
lemmas grow_disjoint = grow_result [THEN conjunct2, THEN conjunct1]
lemmas grow_within = grow_result [THEN conjunct2, THEN conjunct2, THEN conjunct1, rule_format]
lemmas grow_radius = grow_result [THEN conjunct2, THEN conjunct2, THEN conjunct2, THEN conjunct1]
lemmas grow_outside = grow_result [THEN conjunct2, THEN conjunct2, THEN conjunct2, THEN conjunct2, rule_format]

lemma grow_rest_shorter: "grow inc c r P = (G, r', P2) \<Longrightarrow> length P2 \<le> length P"
  by (metis grow_mset le_add1 size_mset size_union)

lemma grow_set: "grow inc c r P = (G, r', P2) \<Longrightarrow> set G \<union> set P2 = set P"
  by (metis grow_mset set_mset_mset set_mset_union sup_commute)

subsection \<open>\<open>findNextPointsToCondense\<close>\<close>

text \<open>
  The result object \<open>{allFoundPoints, radius}\<close>. On an empty \<open>POINTS\<close> the source
  reads \<open>POINTS[0]\<close> as \<open>undefined\<close>, \<open>removePoint(undefined)\<close> filters the empty list,
  and the shortcut returns \<open>[undefined]\<close>: the \<open>None\<close> of the first branch.
\<close>

record found_points =
  allFoundPoints :: "point option list"
  radius :: real

definition findNextPointsToCondense :: "real \<Rightarrow> real \<Rightarrow> pending \<Rightarrow> found_points \<times> pending" where
  "findNextPointsToCondense scanRadius radiusIncrease pts =
     (case pts of
        [] \<Rightarrow> (\<lparr>allFoundPoints = [None], radius = scanRadius\<rparr>, [])
      | scanCenter # _ \<Rightarrow>
          (let P = removePoint scanCenter pts in
           if isEmpty P then (\<lparr>allFoundPoints = [Some scanCenter], radius = scanRadius\<rparr>, P)
           else (let s = scanLoop radiusIncrease scanCenter (scanStart scanRadius scanCenter P)
                 in (\<lparr>allFoundPoints = map Some (totalFoundPoints s), radius = currentScanRadius s\<rparr>,
                     POINTS s))))"

lemma findNext_Nil: "findNextPointsToCondense b i [] = (\<lparr>allFoundPoints = [None], radius = b\<rparr>, [])"
  by (simp add: findNextPointsToCondense_def)

lemma findNext_grow:
  "findNextPointsToCondense b i (c # P) =
     (let P1 = filter (\<lambda>p. p \<noteq> c) P in
      if P1 = [] then (\<lparr>allFoundPoints = [Some c], radius = b\<rparr>, [])
      else (case grow i c b P1 of
              (G, r, P2) \<Rightarrow> (\<lparr>allFoundPoints = map Some (c # G), radius = r\<rparr>, P2)))"
proof -
  have rp: "removePoint c (c # P) = filter (\<lambda>p. p \<noteq> c) P"
    by (simp add: removePoint_filter)
  show ?thesis
  proof (cases "filter (\<lambda>p. p \<noteq> c) P = []")
    case True
    then show ?thesis by (simp add: findNextPointsToCondense_def rp)
  next
    case False
    obtain G r P2 where g: "grow i c b (filter (\<lambda>p. p \<noteq> c) P) = (G, r, P2)"
      by (metis prod_cases3)
    have "scanLoop i c (scanStart b c (filter (\<lambda>p. p \<noteq> c) P)) =
          (scanStart b c (filter (\<lambda>p. p \<noteq> c) P))\<lparr>POINTS := P2, totalFoundPoints := [c] @ G,
             currentScanRadius := r, keepScanning := False\<rparr>"
      using scanLoop_grow [of "scanStart b c (filter (\<lambda>p. p \<noteq> c) P)" i c] g
      by (simp add: scanStart_def)
    with False g show ?thesis
      by (simp add: findNextPointsToCondense_def rp scanStart_def)
  qed
qed

lemma findNext_shorter:
  "findNextPointsToCondense b i P = (obj, P') \<Longrightarrow> P' \<noteq> [] \<Longrightarrow> length P' < length P"
proof (cases P)
  case (Cons c Q)
  assume f: "findNextPointsToCondense b i P = (obj, P')" and ne: "P' \<noteq> []"
  let ?P1 = "filter (\<lambda>p. p \<noteq> c) Q"
  obtain G r P2 where g: "grow i c b ?P1 = (G, r, P2)" by (metis prod_cases3)
  have "length P2 \<le> length Q"
    using grow_rest_shorter [OF g] length_filter_le [of "\<lambda>p. p \<noteq> c" Q] by (rule order_trans)
  then have "length P2 < length P" using Cons by simp
  with f ne g Cons show ?thesis
    by (auto simp: findNext_grow Let_def split: if_splits)
qed (simp add: findNext_Nil)

lemma grow_seed_rest_shorter:
  "grow i c b (filter (\<lambda>p. p \<noteq> c) P) = (G, r, P2) \<Longrightarrow> length P2 < Suc (length P)"
  using grow_rest_shorter length_filter_le le_imp_less_Suc order_trans by metis

subsection \<open>Claims on one call of \<open>findNextPointsToCondense\<close>\<close>

text \<open>
  C9 (invariant). One call partitions the pending list: it returns the seed
  followed by points \<open>G\<close>, and \<open>G\<close> together with the new pending list is exactly
  the old pending list without the copies of the seed, with no point on both sides.
\<close>

theorem findNext_partition:
  assumes "findNextPointsToCondense b i (c # P) = (obj, P')"
  shows "\<exists>G. allFoundPoints obj = map Some (c # G) \<and>
             mset G + mset P' = mset (removePoint c P) \<and> set G \<inter> set P' = {}"
proof (cases "filter (\<lambda>p. p \<noteq> c) P = []")
  case True
  with assms have "obj = \<lparr>allFoundPoints = [Some c], radius = b\<rparr>" "P' = []"
    by (simp_all add: findNext_grow)
  with True show ?thesis by (simp add: removePoint_filter)
next
  case False
  obtain G r P2 where g: "grow i c b (filter (\<lambda>p. p \<noteq> c) P) = (G, r, P2)"
    by (metis prod_cases3)
  with assms False have "obj = \<lparr>allFoundPoints = map Some (c # G), radius = r\<rparr>" "P' = P2"
    by (simp_all add: findNext_grow)
  with grow_mset [OF g] grow_disjoint [OF g] show ?thesis
    by (simp add: removePoint_filter add.commute)
qed

text \<open>
  C10 (functional). With a non-negative increment, the radius a call records is
  exactly the radius of its last, empty, scan: no point left pending lies within it
  around the seed; every absorbed point lies within it minus one increment (the
  radius of the last scan that found something); and it is the base radius plus
  \<open>k\<close> increments, \<open>k\<close> at most the number of absorbed points and zero exactly
  when nothing was absorbed.
\<close>

theorem findNext_radius:
  assumes "findNextPointsToCondense b i (c # P) = (obj, P')" and "0 \<le> i"
  shows "(\<forall>p\<in>set P'. \<not> isPointWithinRadius p c (radius obj)) \<and>
         (\<forall>q\<in>set (tl (allFoundPoints obj)).
            q \<noteq> None \<and> isPointWithinRadius (the q) c (radius obj - i)) \<and>
         (\<exists>k\<in>{0..length (allFoundPoints obj) - 1}.
            radius obj = b + real k * i \<and> (k = 0 \<longleftrightarrow> tl (allFoundPoints obj) = []))"
proof (cases "filter (\<lambda>p. p \<noteq> c) P = []")
  case True
  with assms(1) have "obj = \<lparr>allFoundPoints = [Some c], radius = b\<rparr>" "P' = []"
    by (simp_all add: findNext_grow)
  then show ?thesis by simp
next
  case False
  obtain G r P2 where g: "grow i c b (filter (\<lambda>p. p \<noteq> c) P) = (G, r, P2)"
    by (metis prod_cases3)
  with assms(1) False have "obj = \<lparr>allFoundPoints = map Some (c # G), radius = r\<rparr>" "P' = P2"
    by (simp_all add: findNext_grow)
  with grow_outside [OF g] grow_within [OF g assms(2)] grow_radius [OF g] show ?thesis by auto
qed

subsection \<open>Witnesses\<close>

lemma findNext_example:
  "findNextPointsToCondense 4 2 [\<lparr>x = 0, y = 0\<rparr>, \<lparr>x = 3, y = 0\<rparr>, \<lparr>x = 10, y = 0\<rparr>] =
     (\<lparr>allFoundPoints = [Some \<lparr>x = 0, y = 0\<rparr>, Some \<lparr>x = 3, y = 0\<rparr>], radius = 6\<rparr>, [\<lparr>x = 10, y = 0\<rparr>])"
  by (simp add: findNext_grow grow.simps Let_def eval_simps)

theorem findNext_partition_witness:
  "findNextPointsToCondense 4 2 [\<lparr>x = 0, y = 0\<rparr>, \<lparr>x = 3, y = 0\<rparr>, \<lparr>x = 10, y = 0\<rparr>] =
     (\<lparr>allFoundPoints = [Some \<lparr>x = 0, y = 0\<rparr>, Some \<lparr>x = 3, y = 0\<rparr>], radius = 6\<rparr>, [\<lparr>x = 10, y = 0\<rparr>]) \<and>
   (\<exists>G. allFoundPoints \<lparr>allFoundPoints = [Some \<lparr>x = 0, y = 0\<rparr>, Some \<lparr>x = 3, y = 0\<rparr>], radius = 6\<rparr>
          = map Some (\<lparr>x = 0, y = 0\<rparr> # G) \<and>
        mset G + mset [\<lparr>x = 10, y = 0\<rparr>] =
          mset (removePoint \<lparr>x = 0, y = 0\<rparr> [\<lparr>x = 3, y = 0\<rparr>, \<lparr>x = 10, y = 0\<rparr>]) \<and>
        set G \<inter> set [\<lparr>x = 10, y = 0\<rparr>] = {})"
  using findNext_example findNext_partition [OF findNext_example] by simp

theorem findNext_radius_witness:
  "findNextPointsToCondense 4 2 [\<lparr>x = 0, y = 0\<rparr>, \<lparr>x = 3, y = 0\<rparr>, \<lparr>x = 10, y = 0\<rparr>] =
     (\<lparr>allFoundPoints = [Some \<lparr>x = 0, y = 0\<rparr>, Some \<lparr>x = 3, y = 0\<rparr>], radius = 6\<rparr>, [\<lparr>x = 10, y = 0\<rparr>]) \<and>
   0 \<le> (2::real) \<and>
   \<not> isPointWithinRadius \<lparr>x = 10, y = 0\<rparr> \<lparr>x = 0, y = 0\<rparr> 6 \<and>
   isPointWithinRadius \<lparr>x = 3, y = 0\<rparr> \<lparr>x = 0, y = 0\<rparr> (6 - 2) \<and>
   (\<exists>k\<in>{0..length [Some \<lparr>x = 0, y = 0\<rparr>, Some \<lparr>x = 3, y = 0\<rparr>] - 1}.
      (6::real) = 4 + real k * 2 \<and> (k = 0 \<longleftrightarrow> [Some \<lparr>x = 3, y = 0\<rparr>] = []))"
proof -
  have i: "0 \<le> (2::real)" by simp
  show ?thesis using findNext_example findNext_radius [OF findNext_example i] by simp
qed

theorem scan_reach_inv_witness:
  "scan_reach 2 \<lparr>x = 0, y = 0\<rparr> (scanStart 4 \<lparr>x = 0, y = 0\<rparr> [\<lparr>x = 3, y = 0\<rparr>, \<lparr>x = 10, y = 0\<rparr>])
     (scanIteration 2 \<lparr>x = 0, y = 0\<rparr> (scanStart 4 \<lparr>x = 0, y = 0\<rparr> [\<lparr>x = 3, y = 0\<rparr>, \<lparr>x = 10, y = 0\<rparr>])) \<and>
   scan_inv 2 \<lparr>x = 0, y = 0\<rparr> 4 [\<lparr>x = 3, y = 0\<rparr>, \<lparr>x = 10, y = 0\<rparr>]
     (scanIteration 2 \<lparr>x = 0, y = 0\<rparr> (scanStart 4 \<lparr>x = 0, y = 0\<rparr> [\<lparr>x = 3, y = 0\<rparr>, \<lparr>x = 10, y = 0\<rparr>]))"
proof -
  have r: "scan_reach 2 \<lparr>x = 0, y = 0\<rparr> (scanStart 4 \<lparr>x = 0, y = 0\<rparr> [\<lparr>x = 3, y = 0\<rparr>, \<lparr>x = 10, y = 0\<rparr>])
     (scanIteration 2 \<lparr>x = 0, y = 0\<rparr> (scanStart 4 \<lparr>x = 0, y = 0\<rparr> [\<lparr>x = 3, y = 0\<rparr>, \<lparr>x = 10, y = 0\<rparr>]))"
    by (rule scan_reach.step [OF scan_reach.start]) (simp add: scan_step_iff scanStart_def)
  show ?thesis using r scan_reach_inv [OF r] by simp
qed


end
