(* ===== verification/Condense.thy ===== *)
theory Condense
  imports Scan "HOL-Library.Sublist"
begin

text \<open>
  \<open>condensePointsByScanRadius\<close> of \<^verbatim>\<open>lib/drawMarketsAndOutline.js\<close>: copy the
  input to \<open>POINTS\<close>, then repeat \<open>findNextPointsToCondense\<close>,
  \<open>calculateCenter\<close> and \<open>condensedCenters.set\<close> until \<open>POINTS\<close> is empty. The loop
  body runs before the emptiness test (\<open>while (keepCondensing)\<close> with the test at
  the end), so an empty input reaches \<open>calculateCenter([undefined])\<close> and throws.
  The JavaScript \<open>Map\<close> is keyed by freshly created \<open>Point\<close> objects, so every
  \<open>set\<close> adds an entry and iteration follows insertion order: it is the list
  \<open>condensed_centers\<close>. The abstract specification \<open>clusters\<close> lists the clusters as
  point lists with their radii; \<open>condense_refines\<close> says the program emits their
  centroids.
\<close>

type_synonym condensed_centers = "(point \<times> real) list"

function condenseLoop ::
  "real \<Rightarrow> real \<Rightarrow> pending \<Rightarrow> condensed_centers \<Rightarrow> condensed_centers js_result" where
  "condenseLoop scanRadius radiusIncrease pts condensedCenters =
     (case findNextPointsToCondense scanRadius radiusIncrease pts of
        (condensedPointsObj, pts') \<Rightarrow>
          (case calculateCenter (allFoundPoints condensedPointsObj) of
             Inl e \<Rightarrow> Inl e
           | Inr condensedCenter \<Rightarrow>
               (let condensedCenters' =
                      condensedCenters @ [(condensedCenter, radius condensedPointsObj)]
                in if length pts' = 0 then Inr condensedCenters'
                   else condenseLoop scanRadius radiusIncrease pts' condensedCenters')))"
  by pat_completeness auto
termination
  by (relation "measure (\<lambda>(_, _, pts, _). length pts)") (auto intro: findNext_shorter [OF sym])

declare condenseLoop.simps [simp del]

definition condensePointsByScanRadius ::
  "real \<Rightarrow> real \<Rightarrow> point list \<Rightarrow> condensed_centers js_result" where
  "condensePointsByScanRadius scanRadius radiusIncrease points =
     condenseLoop scanRadius radiusIncrease points []"

subsection \<open>The abstract clustering\<close>

text \<open>
  \<open>clusters b i P\<close>: the first point is the seed; its coordinate-equal copies are
  dropped; if nothing else is pending the seed is a cluster of radius \<open>b\<close>, otherwise
  \<open>grow\<close> collects its members from the other points and the rest is clustered the
  same way. Each cluster is its member list, seed first, and its recorded radius.
\<close>

function clusters :: "real \<Rightarrow> real \<Rightarrow> point list \<Rightarrow> (point list \<times> real) list" where
  "clusters b i [] = []"
| "clusters b i (c # P) =
     (let P1 = filter (\<lambda>p. p \<noteq> c) P in
      if P1 = [] then [([c], b)]
      else (case grow i c b P1 of (G, r, P2) \<Rightarrow> (c # G, r) # clusters b i P2))"
  by pat_completeness auto
termination
  by (relation "measure (\<lambda>(_, _, P). length P)") (auto intro: grow_seed_rest_shorter [OF sym])

definition condense_spec :: "real \<Rightarrow> real \<Rightarrow> point list \<Rightarrow> condensed_centers" where
  "condense_spec b i P = map (\<lambda>(A, r). (centroid A, r)) (clusters b i P)"

text \<open>
  \<open>seeded_clusters P cl\<close> pins a list of clusters to the input \<open>P\<close>: every cluster
  is non-empty, the seed (head) of the \<open>k\<close>-th cluster is the first input point not
  in an earlier cluster, and the members, counted with multiplicity, are the seeds
  once each and every other input point as often as it occurs in \<open>P\<close>.
\<close>

definition seeded_clusters :: "point list \<Rightarrow> (point list \<times> real) list \<Rightarrow> bool" where
  "seeded_clusters P cl \<longleftrightarrow>
     (\<forall>k<length cl. fst (cl ! k) \<noteq> [] \<and>
        hd (fst (cl ! k)) = hd (filter (\<lambda>p. p \<notin> set (concat (map fst (take k cl)))) P)) \<and>
     mset (concat (map fst cl)) =
       mset (map (\<lambda>(A, r). hd A) cl) + filter_mset (\<lambda>p. p \<notin> set (map (\<lambda>(A, r). hd A) cl)) (mset P)"

abbreviation undefined_x_error :: js_error where
  "undefined_x_error \<equiv> TypeError ''Cannot read properties of undefined (reading x)''"

subsection \<open>Refinement\<close>

lemma condenseLoop_clusters:
  "condenseLoop b i P acc =
     (if P = [] then Inl undefined_x_error else Inr (acc @ condense_spec b i P))"
proof (induction b i P acc rule: condenseLoop.induct)
  case (1 b i P acc)
  show ?case
  proof (cases P)
    case Nil
    then show ?thesis
      by (simp add: condenseLoop.simps [of b i "[]" acc] findNext_Nil calculateCenter_def)
  next
    case (Cons c Q)
    let ?P1 = "filter (\<lambda>p. p \<noteq> c) Q"
    show ?thesis
    proof (cases "?P1 = []")
      case True
      with Cons show ?thesis
        by (simp add: condenseLoop.simps [of b i "c # Q" acc] findNext_grow calculateCenter_Some [of "[c]", simplified]
                      condense_spec_def)
    next
      case False
      obtain G r P2 where g: "grow i c b ?P1 = (G, r, P2)" by (metis prod_cases3)
      have f: "findNextPointsToCondense b i P =
                 (\<lparr>allFoundPoints = map Some (c # G), radius = r\<rparr>, P2)"
        using Cons False g by (simp add: findNext_grow)
      have cc: "calculateCenter (map Some (c # G)) = Inr (centroid (c # G))"
        by (rule calculateCenter_Some)
      have spec: "condense_spec b i P = (centroid (c # G), r) # condense_spec b i P2"
        using Cons False g by (simp add: condense_spec_def)
      show ?thesis
      proof (cases "P2 = []")
        case True
        then show ?thesis
          using Cons f cc spec by (simp add: condenseLoop.simps [of b i "c # Q" acc] condense_spec_def)
      next
        case False
        have "condenseLoop b i P2 (acc @ [(centroid (c # G), r)]) =
              Inr ((acc @ [(centroid (c # G), r)]) @ condense_spec b i P2)"
          using "1.IH" [OF f [symmetric] _ refl] cc False by simp
        then show ?thesis
          using Cons f cc spec False by (simp add: condenseLoop.simps [of b i "c # Q" acc])
      qed
    qed
  qed
qed

subsection \<open>Properties of the clustering\<close>

lemma clusters_step:
  assumes "filter (\<lambda>p. p \<noteq> c) P \<noteq> []" and "grow i c b (filter (\<lambda>p. p \<noteq> c) P) = (G, r, P2)"
  shows "clusters b i (c # P) = (c # G, r) # clusters b i P2"
  using assms by simp

lemma clusters_single:
  "filter (\<lambda>p. p \<noteq> c) P = [] \<Longrightarrow> clusters b i (c # P) = [([c], b)]"
  by simp

lemma filter_neq_empty_set: "filter (\<lambda>p. p \<noteq> c) P = [] \<Longrightarrow> set (c # P) = {c}"
  by (auto simp: filter_empty_conv)

lemma grow_rest_avoids_seed:
  "grow i c b (filter (\<lambda>p. p \<noteq> c) P) = (G, r, P2) \<Longrightarrow> c \<notin> set G \<and> c \<notin> set P2 \<and> set P2 \<subseteq> set P"
  using grow_set [of i c b "filter (\<lambda>p. p \<noteq> c) P" G r P2] by auto

text \<open>
  The induction over \<open>clusters\<close> used below: a property of the empty list, of the
  singleton cluster, and of a grown cluster followed by the clusters of the rest.
\<close>

lemma clusters_induct [case_names Nil Single Grow]:
  assumes "\<And>b i. Q b i []"
    and "\<And>b i c P. filter (\<lambda>p. p \<noteq> c) P = [] \<Longrightarrow> Q b i (c # P)"
    and "\<And>b i c P G r P2. filter (\<lambda>p. p \<noteq> c) P \<noteq> [] \<Longrightarrow>
           grow i c b (filter (\<lambda>p. p \<noteq> c) P) = (G, r, P2) \<Longrightarrow> Q b i P2 \<Longrightarrow> Q b i (c # P)"
  shows "Q b i P"
proof (induction b i P rule: clusters.induct)
  case (2 b i c P)
  show ?case
  proof (cases "filter (\<lambda>p. p \<noteq> c) P = []")
    case True
    then show ?thesis by (rule assms(2))
  next
    case False
    obtain G r P2 where g: "grow i c b (filter (\<lambda>p. p \<noteq> c) P) = (G, r, P2)"
      by (metis prod_cases3)
    have "Q b i P2" using "2.IH" [OF refl False g [symmetric] refl] .
    with False g show ?thesis by (rule assms(3))
  qed
qed (rule assms(1))

lemma clusters_set: "set (concat (map fst (clusters b i P))) = set P"
proof (induction b i P rule: clusters_induct)
  case (Single b i c P)
  then show ?case using filter_neq_empty_set [OF Single] by simp
next
  case (Grow b i c P G r P2)
  have "set G \<union> set P2 = set (filter (\<lambda>p. p \<noteq> c) P)" by (rule grow_set [OF Grow(2)])
  with Grow show ?case by (auto simp: clusters_step)
qed simp

lemma clusters_member_subset: "(A, r) \<in> set (clusters b i P) \<Longrightarrow> set A \<subseteq> set P"
  using clusters_set [of b i P] by fastforce

lemma clusters_length: "length (clusters b i P) \<le> length P"
proof (induction b i P rule: clusters_induct)
  case (Grow b i c P G r P2)
  then show ?case using grow_seed_rest_shorter [OF Grow(2)] by (simp add: clusters_step)
qed simp_all

lemma clusters_nonempty: "(A, r) \<in> set (clusters b i P) \<Longrightarrow> A \<noteq> [] \<and> hd A \<in> set P"
proof (induction b i P rule: clusters_induct)
  case (Grow b i c P G r P2)
  then show ?case using grow_rest_avoids_seed [OF Grow(2)] by (auto simp: clusters_step)
qed auto

lemma clusters_disjoint:
  "sorted_wrt (\<lambda>A B. set (fst A) \<inter> set (fst B) = {}) (clusters b i P)"
proof (induction b i P rule: clusters_induct)
  case (Grow b i c P G r P2)
  have "set (c # G) \<inter> set P2 = {}"
    using grow_disjoint [OF Grow(2)] grow_rest_avoids_seed [OF Grow(2)] by auto
  then have "\<forall>B\<in>set (clusters b i P2). set (c # G) \<inter> set (fst B) = {}"
    using clusters_member_subset by fastforce
  with Grow show ?case by (simp add: clusters_step)
qed simp_all

lemma clusters_mset: "mset (concat (map fst (clusters b i P))) \<subseteq># mset P"
proof (induction b i P rule: clusters_induct)
  case (Grow b i c P G r P2)
  have "mset G + mset P2 \<subseteq># mset P"
    using grow_mset [OF Grow(2)] by (metis add.commute mset_filter multiset_filter_subset)
  then have "mset G + mset (concat (map fst (clusters b i P2))) \<subseteq># mset P"
    using Grow(3) by (meson subset_mset.add_left_mono subset_mset.order_trans)
  then show ?case using Grow by (simp add: clusters_step)
qed simp_all

lemma clusters_separated:
  "sorted_wrt (\<lambda>(A, r) (B, _). \<forall>q\<in>set B. \<not> isPointWithinRadius q (hd A) r) (clusters b i P)"
proof (induction b i P rule: clusters_induct)
  case (Grow b i c P G r P2)
  have "\<forall>B\<in>set (clusters b i P2). \<forall>q\<in>set (fst B). \<not> isPointWithinRadius q c r"
    using grow_outside [OF Grow(2)] clusters_member_subset by fastforce
  with Grow show ?case by (auto simp: clusters_step)
qed simp_all

lemma clusters_members_within:
  assumes "0 \<le> i"
  shows "\<forall>(A, r)\<in>set (clusters b i P). \<forall>q\<in>set (tl A). isPointWithinRadius q (hd A) (r - i)"
  using assms
proof (induction b i P rule: clusters_induct)
  case (Grow b i c P G r P2)
  then show ?case
    using grow_within [OF Grow(2)] by (auto simp: clusters_step)
qed simp_all

lemma clusters_radius:
  "\<forall>(A, r)\<in>set (clusters b i P).
     \<exists>k\<in>{0..length A - 1}. r = b + real k * i \<and> (k = 0 \<longleftrightarrow> tl A = [])"
proof (induction b i P rule: clusters_induct)
  case (Single b i c P)
  then show ?case by auto
next
  case (Grow b i c P G r P2)
  then show ?case using grow_radius [OF Grow(2)] by (simp add: clusters_step)
qed simp

lemma clusters_radius_ge:
  assumes "0 \<le> i" and "(A, r) \<in> set (clusters b i P)"
  shows "b \<le> r"
proof -
  obtain k :: nat where "r = b + real k * i"
    using clusters_radius [of b i P] assms(2) by fastforce
  then show ?thesis using assms(1) by simp
qed

lemma grow_rest_subseq: "grow inc c r P = (G, r', P2) \<Longrightarrow> subseq P2 P"
proof (induction inc c r P arbitrary: G r' P2 rule: grow.induct)
  case (1 inc c r P)
  let ?P' = "filter (\<lambda>p. \<not> isPointWithinRadius p c r) P"
  show ?case
  proof (cases "filter (\<lambda>p. isPointWithinRadius p c r) P = []")
    case False
    obtain G' r'' P'' where g: "grow inc c (r + inc) ?P' = (G', r'', P'')" by (metis prod_cases3)
    then have "P2 = P''" using "1.prems" False by (simp add: grow.simps [of inc c r P])
    moreover have "subseq P'' ?P'" using "1.IH" [OF _ False g] by simp
    ultimately show ?thesis using subseq_filter_left subseq_order.trans by blast
  qed (use "1.prems" in \<open>simp add: grow.simps [of inc c r P]\<close>)
qed

lemma clusters_seeds:
  "subseq (map (\<lambda>(A, r). hd A) (clusters b i P)) P \<and> distinct (map (\<lambda>(A, r). hd A) (clusters b i P)) \<and>
   (P \<noteq> [] \<longrightarrow> hd (map (\<lambda>(A, r). hd A) (clusters b i P)) = hd P)"
proof (induction b i P rule: clusters_induct)
  case (Grow b i c P G r P2)
  have "subseq P2 P"
    using grow_rest_subseq [OF Grow(2)] subseq_filter_left subseq_order.trans by blast
  moreover have "c \<notin> set (map (\<lambda>(A, r). hd A) (clusters b i P2))"
    using grow_rest_avoids_seed [OF Grow(2)] clusters_nonempty by fastforce
  moreover have cs: "clusters b i (c # P) = (c # G, r) # clusters b i P2"
    by (rule clusters_step [OF Grow(1,2)])
  ultimately show ?case
    using Grow(3) unfolding cs by (auto intro: subseq_order.trans)
qed simp_all

lemma clusters_member_length: "(A, r) \<in> set (clusters b i P) \<Longrightarrow> length A \<le> length P"
proof -
  assume a: "(A, r) \<in> set (clusters b i P)"
  then have "mset A \<subseteq># mset (concat (map fst (clusters b i P)))"
    using mset_le_concat_map [of "(A, r)" "clusters b i P" fst] by simp
  also have "\<dots> \<subseteq># mset P" by (rule clusters_mset)
  finally show ?thesis by (metis size_mset size_mset_mono)
qed

lemma clusters_count:
  "count (mset (concat (map fst (clusters b i P)))) p =
     (if p \<in> set (map (\<lambda>(A, r). hd A) (clusters b i P)) then 1 else count (mset P) p)"
proof (induction b i P arbitrary: p rule: clusters_induct)
  case (Single b i c P)
  then show ?case using filter_neq_empty_set [OF Single] by (auto simp: count_eq_zero_iff)
next
  case (Grow b i c P G r P2)
  have m: "mset G + mset P2 = mset (filter (\<lambda>q. q \<noteq> c) P)"
    using grow_mset [OF Grow(2)] by (simp add: add.commute)
  have av: "c \<notin> set G" "c \<notin> set P2" using grow_rest_avoids_seed [OF Grow(2)] by auto
  have d: "set G \<inter> set P2 = {}" by (rule grow_disjoint [OF Grow(2)])
  have cs: "clusters b i (c # P) = (c # G, r) # clusters b i P2"
    by (rule clusters_step [OF Grow(1,2)])
  have seeds: "set (map (\<lambda>(A, r). hd A) (clusters b i P2)) \<subseteq> set P2"
    using clusters_nonempty by fastforce
  show ?case
  proof (cases "p = c")
    case True
    have "count (mset (concat (map fst (clusters b i P2)))) c = 0"
      using clusters_set [of b i P2] av(2) by (simp add: count_eq_zero_iff)
    with True av show ?thesis unfolding cs by (simp add: count_eq_zero_iff)
  next
    case False
    have cp: "count (mset G) p + count (mset P2) p = count (mset P) p"
      using arg_cong [OF m, of "\<lambda>M. count M p"] False by simp
    show ?thesis
    proof (cases "p \<in> set (map (\<lambda>(A, r). hd A) (clusters b i P2))")
      case True
      then have "p \<notin> set G" using seeds d by auto
      with True False Grow(3) show ?thesis
        unfolding cs by (simp add: count_eq_zero_iff)
    next
      case nt: False
      with False Grow(3) cp show ?thesis
        unfolding cs by simp
    qed
  qed
qed simp

lemma grow_rest_filter: "grow inc c r P = (G, r', P2) \<Longrightarrow> P2 = filter (\<lambda>p. p \<notin> set G) P"
proof (induction inc c r P arbitrary: G r' P2 rule: grow.induct)
  case (1 inc c r P)
  let ?F = "filter (\<lambda>p. isPointWithinRadius p c r) P"
  let ?P' = "filter (\<lambda>p. \<not> isPointWithinRadius p c r) P"
  show ?case
  proof (cases "?F = []")
    case True
    then have "G = [] \<and> P2 = P" using "1.prems" by (simp add: grow.simps [of inc c r P])
    then show ?thesis by simp
  next
    case False
    obtain G' r'' P'' where g: "grow inc c (r + inc) ?P' = (G', r'', P'')" by (metis prod_cases3)
    then have "G = ?F @ G' \<and> P2 = P''" using "1.prems" False by (simp add: grow.simps [of inc c r P])
    moreover have "P'' = filter (\<lambda>p. p \<notin> set G') ?P'" using "1.IH" [OF _ False g] by simp
    ultimately show ?thesis by (auto simp: filter_filter intro: filter_cong)
  qed
qed

lemma clusters_seed_first:
  "\<forall>k<length (clusters b i P). fst (clusters b i P ! k) \<noteq> [] \<and>
     hd (fst (clusters b i P ! k)) =
       hd (filter (\<lambda>p. p \<notin> set (concat (map fst (take k (clusters b i P))))) P)"
proof (induction b i P rule: clusters_induct)
  case (Grow b i c P G r P2)
  have cs: "clusters b i (c # P) = (c # G, r) # clusters b i P2"
    by (rule clusters_step [OF Grow(1,2)])
  have rest: "filter (\<lambda>p. p \<notin> set (c # G)) P = P2"
    using grow_rest_filter [OF Grow(2)] by (simp add: filter_filter conj_commute)
  show ?case
  proof (intro allI impI)
    fix k assume k: "k < length (clusters b i (c # P))"
    show "fst (clusters b i (c # P) ! k) \<noteq> [] \<and>
          hd (fst (clusters b i (c # P) ! k)) =
            hd (filter (\<lambda>p. p \<notin> set (concat (map fst (take k (clusters b i (c # P)))))) (c # P))"
    proof (cases k)
      case (Suc k')
      let ?E = "set (concat (map fst (take k' (clusters b i P2))))"
      have "filter (\<lambda>p. p \<notin> set (c # G) \<union> ?E) (c # P) = filter (\<lambda>p. p \<notin> ?E) P2"
        unfolding rest [symmetric] by (simp add: filter_filter conj_commute)
      then show ?thesis using Grow(3) k Suc unfolding cs by (simp add: Un_commute)
    next
      case 0
      then show ?thesis unfolding cs by simp
    qed
  qed
qed auto

lemma seeded_clusters_clusters: "seeded_clusters P (clusters b i P)"
proof -
  let ?S = "map (\<lambda>(A, r). hd A) (clusters b i P)"
  have d: "distinct ?S" using clusters_seeds [of b i P] by blast
  have "count (mset (concat (map fst (clusters b i P)))) p =
        count (mset ?S + filter_mset (\<lambda>p. p \<notin> set ?S) (mset P)) p" for p
    using clusters_count [of b i P p] d by (simp add: distinct_count_atmost_1)
  then show ?thesis
    unfolding seeded_clusters_def using clusters_seed_first [of b i P] by (blast intro: multiset_eqI)
qed

lemma condense_clusters:
  "P \<noteq> [] \<Longrightarrow>
   condensePointsByScanRadius b i P = Inr (map (\<lambda>(A, r). (centroid A, r)) (clusters b i P))"
  by (simp add: condensePointsByScanRadius_def condenseLoop_clusters condense_spec_def)

subsection \<open>Claims on the condensation\<close>

text \<open>
  C1 (refinement). The program computes the abstract clustering: on a non-empty
  input, \<open>condensePointsByScanRadius\<close> returns, in order, the centroid and
  recorded radius of each cluster of \<open>clusters\<close>; on the empty input it throws.
\<close>

theorem condense_refines:
  "condensePointsByScanRadius b i P =
     (if P = [] then Inl undefined_x_error else Inr (condense_spec b i P))"
  by (simp add: condensePointsByScanRadius_def condenseLoop_clusters)

text \<open>
  C2 (invariant). The emitted entries come from a partition of the input: there are
  clusters, one per entry, each non-empty, whose union is the set of input points
  and which are pairwise disjoint, so that every distinct input point is absorbed by
  exactly one cluster.
\<close>

theorem condense_partition:
  assumes "P \<noteq> []"
  shows "\<exists>cl. condensePointsByScanRadius b i P = Inr (map (\<lambda>(A, r). (centroid A, r)) cl) \<and>
              set (concat (map fst cl)) = set P \<and>
              sorted_wrt (\<lambda>A B. set (fst A) \<inter> set (fst B) = {}) cl \<and>
              (\<forall>(A, r)\<in>set cl. A \<noteq> [])"
proof (intro exI conjI)
  show "condensePointsByScanRadius b i P = Inr (map (\<lambda>(A, r). (centroid A, r)) (clusters b i P))"
    using assms by (simp add: condensePointsByScanRadius_def condenseLoop_clusters condense_spec_def)
  show "\<forall>(A, r)\<in>set (clusters b i P). A \<noteq> []"
    using clusters_nonempty by blast
qed (rule clusters_set, rule clusters_disjoint)

text \<open>
  C3 (termination). On every non-empty input the outer loop and every growth loop
  end and the program returns a result; it never throws.
\<close>

theorem condense_terminates:
  "P \<noteq> [] \<Longrightarrow> \<exists>cs. condensePointsByScanRadius b i P = Inr cs"
  by (simp add: condensePointsByScanRadius_def condenseLoop_clusters)

text \<open>
  C4 (error). On the empty input the program throws the \<open>TypeError\<close> of reading
  \<open>x\<close> of \<open>undefined\<close> in \<open>calculateCenter\<close>: the first pass runs before the
  emptiness test.
\<close>

theorem condense_empty_throws:
  "condensePointsByScanRadius b i [] = Inl undefined_x_error"
  by (simp add: condensePointsByScanRadius_def condenseLoop_clusters)

text \<open>
  C5 (safety). Separation: the entries are the centroids of clusters whose seeds
  are pinned to the input (the seed of each cluster is the first input point not in
  an earlier one, \<open>seeded_clusters\<close>), and every point of a later cluster lies
  strictly outside the recorded radius around the seed of every earlier cluster.
\<close>

theorem condense_separated:
  assumes "P \<noteq> []"
  shows "\<exists>cl. condensePointsByScanRadius b i P = Inr (map (\<lambda>(A, r). (centroid A, r)) cl) \<and>
              seeded_clusters P cl \<and>
              sorted_wrt (\<lambda>(A, r) (B, _). \<forall>q\<in>set B. \<not> isPointWithinRadius q (hd A) r) cl"
  by (intro exI [of _ "clusters b i P"] conjI condense_clusters [OF assms] seeded_clusters_clusters
      clusters_separated)

text \<open>
  C6 (functional). With a non-negative increment, the entries come from a partition
  of the input in which every member of a cluster other than its seed lies within the
  recorded radius minus one increment around the seed: the recorded radius is that of
  the last, empty, scan.
\<close>

theorem condense_members_within:
  assumes "P \<noteq> []" and "0 \<le> i"
  shows "\<exists>cl. condensePointsByScanRadius b i P = Inr (map (\<lambda>(A, r). (centroid A, r)) cl) \<and>
              set (concat (map fst cl)) = set P \<and>
              (\<forall>(A, r)\<in>set cl. \<forall>q\<in>set (tl A). isPointWithinRadius q (hd A) (r - i))"
  by (intro exI [of _ "clusters b i P"] conjI condense_clusters [OF assms(1)] clusters_set
      clusters_members_within [OF assms(2)])

text \<open>
  C7 (bounds). The entries are the centroids of clusters pinned to the input
  (\<open>seeded_clusters\<close>: seeds and multiplicities fixed by the input) in which the
  recorded radius of a cluster is the base radius plus \<open>k\<close> increments, where \<open>k\<close>
  is at most the number of members besides the seed and is zero exactly when the
  seed is alone.
\<close>

theorem condense_radius:
  assumes "P \<noteq> []"
  shows "\<exists>cl. condensePointsByScanRadius b i P = Inr (map (\<lambda>(A, r). (centroid A, r)) cl) \<and>
              seeded_clusters P cl \<and>
              (\<forall>(A, r)\<in>set cl. \<exists>k\<in>{0..length A - 1}. r = b + real k * i \<and> (k = 0 \<longleftrightarrow> tl A = []))"
  by (intro exI [of _ "clusters b i P"] conjI condense_clusters [OF assms] seeded_clusters_clusters
      clusters_radius)

text \<open>
  C8 (bounds). A non-empty input yields at least one entry and at most one entry
  per distinct input point: the entries are the centroids of clusters pinned to the
  input whose seeds are distinct input points.
\<close>

theorem condense_entries_bound:
  assumes "P \<noteq> []"
  shows "\<exists>cl. condensePointsByScanRadius b i P = Inr (map (\<lambda>(A, r). (centroid A, r)) cl) \<and>
              seeded_clusters P cl \<and> 1 \<le> length cl \<and> length cl \<le> card (set P)"
proof (intro exI [of _ "clusters b i P"] conjI condense_clusters [OF assms] seeded_clusters_clusters)
  obtain c Q where P: "P = c # Q" using assms by (cases P) auto
  have "clusters b i P \<noteq> []"
    using P by (cases "filter (\<lambda>p. p \<noteq> c) Q = []") (auto split: prod.splits)
  then show "1 \<le> length (clusters b i P)" by (simp add: Suc_leI)
  let ?S = "map (\<lambda>(A, r). hd A) (clusters b i P)"
  have "set ?S \<subseteq> set P" using clusters_nonempty by fastforce
  moreover have "distinct ?S" using clusters_seeds [of b i P] by blast
  ultimately have "length ?S \<le> card (set P)"
    using card_mono [OF finite_set, of "set ?S" P] distinct_card [of ?S] by linarith
  then show "length (clusters b i P) \<le> card (set P)" by simp
qed

subsection \<open>The cases the specification works through\<close>

text \<open>
  C15 (functional). A single point, and any number of coordinate-equal copies of
  it, give one entry: the point itself with the base radius. Removing the seed by
  coordinate equality removes every copy, and the shortcut applies.
\<close>

theorem condense_copies:
  "condensePointsByScanRadius b i (replicate (Suc n) p) = Inr [(p, b)]"
  by (simp add: condensePointsByScanRadius_def condenseLoop_clusters condense_spec_def)

text \<open>
  C17 (functional). Two distinct points farther apart than the base radius give two
  entries, each centred on its own point with the base radius.
\<close>

theorem condense_far_apart:
  assumes "p \<noteq> q" and "\<not> isPointWithinRadius q p b"
  shows "condensePointsByScanRadius b i [p, q] = Inr [(p, b), (q, b)]"
  using assms
  by (simp add: condensePointsByScanRadius_def condenseLoop_clusters condense_spec_def grow.simps)

text \<open>
  C18 (functional). Growth is measured from the fixed seed with an inclusive test:
  when every other input point lies within the base radius of the seed, the first
  scan absorbs them all, the second finds nothing, and the input becomes one entry,
  centred at the mean of the seed and the other points (copies of the seed
  dropped), recorded with the base radius plus one increment. The specification's
  chained example (points 0, 1, 2, base radius 2) is such an input: the first scan
  finds both other points, and the recorded radius is 3.
\<close>

theorem condense_single_scan:
  assumes "filter (\<lambda>p. p \<noteq> c) P \<noteq> []" and "\<forall>q\<in>set P. isPointWithinRadius q c b"
  shows "condensePointsByScanRadius b i (c # P) =
           Inr [(centroid (c # filter (\<lambda>p. p \<noteq> c) P), b + i)]"
proof -
  let ?P1 = "filter (\<lambda>p. p \<noteq> c) P"
  have "filter (\<lambda>p. isPointWithinRadius p c b) ?P1 = ?P1"
    by (rule filter_True) (use assms(2) in auto)
  moreover have "filter (\<lambda>p. \<not> isPointWithinRadius p c b) ?P1 = []" using assms(2) by auto
  ultimately have "grow i c b ?P1 = (?P1, b + i, [])"
    using assms(1) by (simp add: grow.simps [of i c b ?P1] grow.simps [of i c "b + i" "[]"])
  then have "clusters b i (c # P) = [(c # ?P1, b + i)]"
    using assms(1) by simp
  then show ?thesis by (simp add: condense_clusters)
qed

text \<open>
  C28 (functional). Ordering: the entries come out in the order of their seeds in
  the input. The seeds, one per entry, are pairwise distinct, form a subsequence of
  the input, and the first is the first input point: each outer iteration seeds
  from the front of \<open>POINTS\<close>, whose order the removals keep.
\<close>

theorem condense_seed_order:
  assumes "P \<noteq> []"
  shows "\<exists>cl. condensePointsByScanRadius b i P = Inr (map (\<lambda>(A, r). (centroid A, r)) cl) \<and>
              set (concat (map fst cl)) = set P \<and> (\<forall>(A, r)\<in>set cl. A \<noteq> []) \<and>
              subseq (map (\<lambda>(A, r). hd A) cl) P \<and> distinct (map (\<lambda>(A, r). hd A) cl) \<and>
              hd (map (\<lambda>(A, r). hd A) cl) = hd P"
  using clusters_seeds [of b i P] assms
  by (intro exI [of _ "clusters b i P"] conjI condense_clusters [OF assms] clusters_set)
     (auto dest: clusters_nonempty)

subsection \<open>Witnesses\<close>

theorem condense_partition_witness:
  "[\<lparr>x = 0, y = 0\<rparr>, \<lparr>x = 10, y = 0\<rparr>] \<noteq> [] \<and>
   (\<exists>cl. condensePointsByScanRadius 4 2 [\<lparr>x = 0, y = 0\<rparr>, \<lparr>x = 10, y = 0\<rparr>] =
           Inr (map (\<lambda>(A, r). (centroid A, r)) cl) \<and>
         set (concat (map fst cl)) = set [\<lparr>x = 0, y = 0\<rparr>, \<lparr>x = 10, y = 0\<rparr>] \<and>
         sorted_wrt (\<lambda>A B. set (fst A) \<inter> set (fst B) = {}) cl \<and>
         (\<forall>(A, r)\<in>set cl. A \<noteq> []))"
  using condense_partition [of "[\<lparr>x = 0, y = 0\<rparr>, \<lparr>x = 10, y = 0\<rparr>]" 4 2] by simp

theorem condense_terminates_witness:
  "[\<lparr>x = 1, y = 2\<rparr>] \<noteq> [] \<and> (\<exists>cs. condensePointsByScanRadius 4 2 [\<lparr>x = 1, y = 2\<rparr>] = Inr cs)"
  using condense_terminates [of "[\<lparr>x = 1, y = 2\<rparr>]" 4 2] by simp

theorem condense_entries_bound_witness:
  "[\<lparr>x = 0, y = 0\<rparr>] \<noteq> [] \<and>
   (\<exists>cl. condensePointsByScanRadius 4 2 [\<lparr>x = 0, y = 0\<rparr>] = Inr (map (\<lambda>(A, r). (centroid A, r)) cl) \<and>
         seeded_clusters [\<lparr>x = 0, y = 0\<rparr>] cl \<and> 1 \<le> length cl \<and>
         length cl \<le> card (set [\<lparr>x = 0, y = 0\<rparr>]))"
  using condense_entries_bound [of "[\<lparr>x = 0, y = 0\<rparr>]" 4 2] by simp

theorem condense_far_apart_witness:
  "\<lparr>x = 0, y = 0\<rparr> \<noteq> \<lparr>x = 100, y = 0\<rparr> \<and>
   \<not> isPointWithinRadius \<lparr>x = 100, y = 0\<rparr> \<lparr>x = 0, y = 0\<rparr> 1 \<and>
   condensePointsByScanRadius 1 1 [\<lparr>x = 0, y = 0\<rparr>, \<lparr>x = 100, y = 0\<rparr>] =
     Inr [(\<lparr>x = 0, y = 0\<rparr>, 1), (\<lparr>x = 100, y = 0\<rparr>, 1)]"
proof -
  have h: "\<lparr>x = 0, y = 0\<rparr> \<noteq> \<lparr>x = 100, y = 0\<rparr>"
          "\<not> isPointWithinRadius \<lparr>x = 100, y = 0\<rparr> \<lparr>x = 0, y = 0\<rparr> 1"
    by (simp_all add: eval_simps)
  show ?thesis using h condense_far_apart [OF h, of 1] by simp
qed

theorem condense_separated_witness:
  "[\<lparr>x = 0, y = 0\<rparr>, \<lparr>x = 10, y = 0\<rparr>] \<noteq> [] \<and>
   (\<exists>cl. condensePointsByScanRadius 4 2 [\<lparr>x = 0, y = 0\<rparr>, \<lparr>x = 10, y = 0\<rparr>] =
           Inr (map (\<lambda>(A, r). (centroid A, r)) cl) \<and>
         seeded_clusters [\<lparr>x = 0, y = 0\<rparr>, \<lparr>x = 10, y = 0\<rparr>] cl \<and>
         sorted_wrt (\<lambda>(A, r) (B, _). \<forall>q\<in>set B. \<not> isPointWithinRadius q (hd A) r) cl)"
  using condense_separated [of "[\<lparr>x = 0, y = 0\<rparr>, \<lparr>x = 10, y = 0\<rparr>]" 4 2] by simp

theorem condense_members_within_witness:
  "[\<lparr>x = 0, y = 0\<rparr>, \<lparr>x = 3, y = 0\<rparr>] \<noteq> [] \<and> 0 \<le> (2::real) \<and>
   (\<exists>cl. condensePointsByScanRadius 4 2 [\<lparr>x = 0, y = 0\<rparr>, \<lparr>x = 3, y = 0\<rparr>] =
           Inr (map (\<lambda>(A, r). (centroid A, r)) cl) \<and>
         set (concat (map fst cl)) = set [\<lparr>x = 0, y = 0\<rparr>, \<lparr>x = 3, y = 0\<rparr>] \<and>
         (\<forall>(A, r)\<in>set cl. \<forall>q\<in>set (tl A). isPointWithinRadius q (hd A) (r - 2)))"
  using condense_members_within [of "[\<lparr>x = 0, y = 0\<rparr>, \<lparr>x = 3, y = 0\<rparr>]" 2 4] by simp

theorem condense_radius_witness:
  "[\<lparr>x = 0, y = 0\<rparr>, \<lparr>x = 3, y = 0\<rparr>] \<noteq> [] \<and>
   (\<exists>cl. condensePointsByScanRadius 4 2 [\<lparr>x = 0, y = 0\<rparr>, \<lparr>x = 3, y = 0\<rparr>] =
           Inr (map (\<lambda>(A, r). (centroid A, r)) cl) \<and>
         seeded_clusters [\<lparr>x = 0, y = 0\<rparr>, \<lparr>x = 3, y = 0\<rparr>] cl \<and>
         (\<forall>(A, r)\<in>set cl. \<exists>k\<in>{0..length A - 1}. r = 4 + real k * 2 \<and> (k = 0 \<longleftrightarrow> tl A = [])))"
  using condense_radius [of "[\<lparr>x = 0, y = 0\<rparr>, \<lparr>x = 3, y = 0\<rparr>]" 4 2] by simp

text \<open>
  C29 (bounds). With a non-negative increment, every radius the program records for
  an input of \<open>n\<close> points lies between the base radius and the base radius plus
  \<open>n - 1\<close> increments.
\<close>

theorem condense_radius_bounds:
  assumes "0 \<le> i" and "condensePointsByScanRadius b i P = Inr cs"
  shows "\<forall>(c, r)\<in>set cs. b \<le> r \<and> r \<le> b + i * real (length P - 1)"
proof -
  have ne: "P \<noteq> []" using assms(2) by (auto simp: condensePointsByScanRadius_def condenseLoop_clusters)
  have cs: "cs = map (\<lambda>(A, r). (centroid A, r)) (clusters b i P)"
    using assms(2) condense_clusters [OF ne] by simp
  have "b \<le> r \<and> r \<le> b + i * real (length P - 1)" if A: "(A, r) \<in> set (clusters b i P)" for A r
  proof -
    obtain k where k: "k \<le> length A - 1" "r = b + real k * i"
      using clusters_radius [of b i P] A by fastforce
    have "k \<le> length P - 1" using k(1) clusters_member_length [OF A] by linarith
    then have "real k * i \<le> real (length P - 1) * i"
      using assms(1) by (intro mult_right_mono) simp_all
    moreover have "0 \<le> real k * i" using assms(1) by simp
    ultimately show ?thesis using k(2) by (simp add: mult.commute)
  qed
  then show ?thesis using cs by auto
qed

theorem condense_radius_bounds_witness:
  "0 \<le> (2::real) \<and>
   condensePointsByScanRadius 4 2 [\<lparr>x = 0, y = 0\<rparr>, \<lparr>x = 3, y = 0\<rparr>] = Inr [(\<lparr>x = 3 / 2, y = 0\<rparr>, 6)] \<and>
   4 \<le> (6::real) \<and> (6::real) \<le> 4 + 2 * real (length [\<lparr>x = 0, y = 0\<rparr>, \<lparr>x = 3, y = 0\<rparr>] - 1)"
proof -
  have h: "0 \<le> (2::real)" by simp
  have c: "condensePointsByScanRadius 4 2 [\<lparr>x = 0, y = 0\<rparr>, \<lparr>x = 3, y = 0\<rparr>] = Inr [(\<lparr>x = 3 / 2, y = 0\<rparr>, 6)]"
    by (simp add: condensePointsByScanRadius_def condenseLoop_clusters condense_spec_def grow.simps
                  Let_def eval_simps)
  show ?thesis using h c condense_radius_bounds [OF h c] by simp
qed

text \<open>
  C30 (invariant). Exact accounting of copies over a whole run: the entries come from
  a partition of the input in which a point that seeds a cluster is absorbed exactly
  once, however often it occurs, and every other point is absorbed exactly as often as
  it occurs in the input.
\<close>

theorem condense_multiplicity:
  assumes "P \<noteq> []"
  shows "\<exists>cl. condensePointsByScanRadius b i P = Inr (map (\<lambda>(A, r). (centroid A, r)) cl) \<and>
              set (concat (map fst cl)) = set P \<and>
              (\<forall>p. count (mset (concat (map fst cl))) p =
                     (if p \<in> set (map (\<lambda>(A, r). hd A) cl) then 1 else count (mset P) p))"
  by (intro exI [of _ "clusters b i P"] conjI allI condense_clusters [OF assms] clusters_set
      clusters_count)

theorem condense_multiplicity_witness:
  "[\<lparr>x = 0, y = 0\<rparr>, \<lparr>x = 1, y = 0\<rparr>, \<lparr>x = 1, y = 0\<rparr>, \<lparr>x = 0, y = 0\<rparr>] \<noteq> [] \<and>
   (\<exists>cl. condensePointsByScanRadius 4 2
            [\<lparr>x = 0, y = 0\<rparr>, \<lparr>x = 1, y = 0\<rparr>, \<lparr>x = 1, y = 0\<rparr>, \<lparr>x = 0, y = 0\<rparr>] =
          Inr (map (\<lambda>(A, r). (centroid A, r)) cl) \<and>
         set (concat (map fst cl)) =
           set [\<lparr>x = 0, y = 0\<rparr>, \<lparr>x = 1, y = 0\<rparr>, \<lparr>x = 1, y = 0\<rparr>, \<lparr>x = 0, y = 0\<rparr>] \<and>
         (\<forall>p. count (mset (concat (map fst cl))) p =
                (if p \<in> set (map (\<lambda>(A, r). hd A) cl) then 1
                 else count (mset [\<lparr>x = 0, y = 0\<rparr>, \<lparr>x = 1, y = 0\<rparr>, \<lparr>x = 1, y = 0\<rparr>, \<lparr>x = 0, y = 0\<rparr>]) p)))"
  using condense_multiplicity
          [of "[\<lparr>x = 0, y = 0\<rparr>, \<lparr>x = 1, y = 0\<rparr>, \<lparr>x = 1, y = 0\<rparr>, \<lparr>x = 0, y = 0\<rparr>]" 4 2]
  by simp

theorem condense_seed_order_witness:
  "[\<lparr>x = 0, y = 0\<rparr>, \<lparr>x = 10, y = 0\<rparr>] \<noteq> [] \<and>
   (\<exists>cl. condensePointsByScanRadius 4 2 [\<lparr>x = 0, y = 0\<rparr>, \<lparr>x = 10, y = 0\<rparr>] =
           Inr (map (\<lambda>(A, r). (centroid A, r)) cl) \<and>
         set (concat (map fst cl)) = set [\<lparr>x = 0, y = 0\<rparr>, \<lparr>x = 10, y = 0\<rparr>] \<and>
         (\<forall>(A, r)\<in>set cl. A \<noteq> []) \<and>
         subseq (map (\<lambda>(A, r). hd A) cl) [\<lparr>x = 0, y = 0\<rparr>, \<lparr>x = 10, y = 0\<rparr>] \<and>
         distinct (map (\<lambda>(A, r). hd A) cl) \<and>
         hd (map (\<lambda>(A, r). hd A) cl) = hd [\<lparr>x = 0, y = 0\<rparr>, \<lparr>x = 10, y = 0\<rparr>])"
  using condense_seed_order [of "[\<lparr>x = 0, y = 0\<rparr>, \<lparr>x = 10, y = 0\<rparr>]" 4 2] by simp

theorem condense_single_scan_witness:
  "filter (\<lambda>p. p \<noteq> \<lparr>x = 0, y = 0\<rparr>) [\<lparr>x = 1, y = 0\<rparr>, \<lparr>x = 2, y = 0\<rparr>] \<noteq> [] \<and>
   isPointWithinRadius \<lparr>x = 1, y = 0\<rparr> \<lparr>x = 0, y = 0\<rparr> 2 \<and>
   isPointWithinRadius \<lparr>x = 2, y = 0\<rparr> \<lparr>x = 0, y = 0\<rparr> 2 \<and>
   condensePointsByScanRadius 2 1 [\<lparr>x = 0, y = 0\<rparr>, \<lparr>x = 1, y = 0\<rparr>, \<lparr>x = 2, y = 0\<rparr>] =
     Inr [(centroid [\<lparr>x = 0, y = 0\<rparr>, \<lparr>x = 1, y = 0\<rparr>, \<lparr>x = 2, y = 0\<rparr>], 3)]"
proof -
  have h: "filter (\<lambda>p. p \<noteq> \<lparr>x = 0, y = 0\<rparr>) [\<lparr>x = 1, y = 0\<rparr>, \<lparr>x = 2, y = 0\<rparr>] \<noteq> []"
    "\<forall>q\<in>set [\<lparr>x = 1, y = 0\<rparr>, \<lparr>x = 2, y = 0\<rparr>]. isPointWithinRadius q \<lparr>x = 0, y = 0\<rparr> 2"
    by (simp_all add: eval_simps)
  have "isPointWithinRadius \<lparr>x = 1, y = 0\<rparr> \<lparr>x = 0, y = 0\<rparr> 2 \<and>
        isPointWithinRadius \<lparr>x = 2, y = 0\<rparr> \<lparr>x = 0, y = 0\<rparr> 2"
    using h(2) by simp
  then show ?thesis using h(1) condense_single_scan [OF h, of 1] by simp
qed

end
