(* ===== verification/Drawing.thy ===== *)
theory Drawing
  imports Projection Condense
begin

text \<open>
  The drawing functions of \<^verbatim>\<open>lib/drawMarketsAndOutline.js\<close>. The canvas
  context is an external object; what the program does to it is the sequence of calls
  it makes, a list of \<open>canvas_op\<close>. A drawing function returns the calls it issues, in
  order, and calls issued one after another are appended. \<open>drawPolygon\<close> walks the
  coordinate list with its index \<open>i\<close> (\<open>moveTo\<close> for \<open>i = 0\<close>, \<open>lineTo\<close> after);
  \<open>drawGroupedCenters\<close> iterates the \<open>Map\<close> in insertion order.
\<close>

datatype canvas_op =
    BeginPath
  | Arc real real real real real
  | MoveTo real real
  | LineTo real real
  | ClosePath
  | Stroke

definition drawCustomCircle :: "point \<Rightarrow> real \<Rightarrow> canvas_op list" where
  "drawCustomCircle center sz =
     [BeginPath, Arc (x center) (y center) (sz / 2) 0 (2 * pi), Stroke]"

fun polygonPath :: "nat \<Rightarrow> (real \<times> real) list \<Rightarrow> canvas_op list" where
  "polygonPath i [] = []"
| "polygonPath i (coord # coords) =
     (let cx = calcX (fst coord); cy = calcY (snd coord)
      in (if i = 0 then MoveTo cx cy else LineTo cx cy) # polygonPath (Suc i) coords)"

definition drawPolygon :: "(real \<times> real) list \<Rightarrow> canvas_op list" where
  "drawPolygon coords = [BeginPath] @ polygonPath 0 coords @ [ClosePath, Stroke]"

definition drawGroupedCenters :: "condensed_centers \<Rightarrow> canvas_op list" where
  "drawGroupedCenters groupedCenters =
     concat (map (\<lambda>(center, sz). drawCustomCircle center sz) groupedCenters)"

subsection \<open>Observing a sequence of canvas calls\<close>

text \<open>
  \<open>arcs_of\<close> lists the circles drawn (centre and radius of each \<open>arc\<close>),
  \<open>path_vertices\<close> the points a path passes through, \<open>count_moves\<close> the number of
  \<open>moveTo\<close> calls, that is the number of separate pieces of the outline.
\<close>

fun arcs_of :: "canvas_op list \<Rightarrow> (real \<times> real \<times> real) list" where
  "arcs_of [] = []"
| "arcs_of (Arc cx cy r _ _ # ops) = (cx, cy, r) # arcs_of ops"
| "arcs_of (_ # ops) = arcs_of ops"

fun path_vertices :: "canvas_op list \<Rightarrow> (real \<times> real) list" where
  "path_vertices [] = []"
| "path_vertices (MoveTo px py # ops) = (px, py) # path_vertices ops"
| "path_vertices (LineTo px py # ops) = (px, py) # path_vertices ops"
| "path_vertices (_ # ops) = path_vertices ops"

fun count_moves :: "canvas_op list \<Rightarrow> nat" where
  "count_moves [] = 0"
| "count_moves (MoveTo _ _ # ops) = Suc (count_moves ops)"
| "count_moves (_ # ops) = count_moves ops"

text \<open>
  The protocol of the 2D context that the drawing functions follow: a path is
  opened by \<open>beginPath\<close> only when the previous one has been stroked, a \<open>lineTo\<close>
  continues a subpath that a \<open>moveTo\<close> or an \<open>arc\<close> started, \<open>arc\<close> gets a
  non-negative radius (the context throws an \<open>IndexSizeError\<close> on a negative one),
  and \<open>stroke\<close> ends the path. \<open>canvas_from p ops\<close> follows the pen through the
  calls, \<open>None\<close> at the first call that breaks the protocol; \<open>canvas_ok\<close> says a
  sequence starts and ends with no open path.
\<close>

datatype pen = Idle | Begun | Tracing

fun canvas_from :: "pen \<Rightarrow> canvas_op list \<Rightarrow> pen option" where
  "canvas_from p [] = Some p"
| "canvas_from p (BeginPath # ops) = (if p = Idle then canvas_from Begun ops else None)"
| "canvas_from p (Arc _ _ r _ _ # ops) =
     (if p \<noteq> Idle \<and> 0 \<le> r then canvas_from Tracing ops else None)"
| "canvas_from p (MoveTo _ _ # ops) = (if p \<noteq> Idle then canvas_from Tracing ops else None)"
| "canvas_from p (LineTo _ _ # ops) = (if p = Tracing then canvas_from Tracing ops else None)"
| "canvas_from p (ClosePath # ops) = (if p \<noteq> Idle then canvas_from p ops else None)"
| "canvas_from p (Stroke # ops) = (if p \<noteq> Idle then canvas_from Idle ops else None)"

definition canvas_ok :: "canvas_op list \<Rightarrow> bool" where
  "canvas_ok ops \<longleftrightarrow> canvas_from Idle ops = Some Idle"

lemma arcs_of_append [simp]: "arcs_of (xs @ ys) = arcs_of xs @ arcs_of ys"
  by (induction xs rule: arcs_of.induct) auto

lemma path_vertices_append [simp]: "path_vertices (xs @ ys) = path_vertices xs @ path_vertices ys"
  by (induction xs rule: path_vertices.induct) auto

lemma count_moves_append [simp]: "count_moves (xs @ ys) = count_moves xs + count_moves ys"
  by (induction xs rule: count_moves.induct) auto

lemma polygonPath_vertices:
  "path_vertices (polygonPath i cs) = map (\<lambda>(lo, la). (calcX lo, calcY la)) cs"
  by (induction i cs rule: polygonPath.induct) (auto simp: Let_def)

lemma polygonPath_moves: "count_moves (polygonPath i cs) = (if i = 0 \<and> cs \<noteq> [] then 1 else 0)"
  by (induction i cs rule: polygonPath.induct) (auto simp: Let_def)

lemma polygonPath_arcs: "arcs_of (polygonPath i cs) = []"
  by (induction i cs rule: polygonPath.induct) (auto simp: Let_def)

lemma drawPolygon_arcs: "arcs_of (drawPolygon cs) = []"
  by (simp add: drawPolygon_def polygonPath_arcs)

lemma canvas_from_append:
  "canvas_from p (xs @ ys) = (case canvas_from p xs of None \<Rightarrow> None | Some q \<Rightarrow> canvas_from q ys)"
  by (induction p xs rule: canvas_from.induct) auto

lemma canvas_ok_append: "canvas_ok xs \<Longrightarrow> canvas_ok ys \<Longrightarrow> canvas_ok (xs @ ys)"
  by (simp add: canvas_ok_def canvas_from_append)

lemma canvas_ok_concat: "\<forall>xs\<in>set xss. canvas_ok xs \<Longrightarrow> canvas_ok (concat xss)"
  by (induction xss) (auto simp: canvas_ok_def canvas_from_append)

lemma polygonPath_pen: "0 < i \<Longrightarrow> canvas_from Tracing (polygonPath i cs) = Some Tracing"
  by (induction i cs rule: polygonPath.induct) (simp_all add: Let_def)

lemma drawPolygon_ok: "canvas_ok (drawPolygon coords)"
proof (cases coords)
  case (Cons c cs)
  have "canvas_from Tracing (polygonPath 1 cs) = Some Tracing" by (simp add: polygonPath_pen)
  then show ?thesis using Cons by (simp add: canvas_ok_def drawPolygon_def canvas_from_append Let_def)
qed (simp add: canvas_ok_def drawPolygon_def)

lemma drawCustomCircle_ok: "canvas_ok (drawCustomCircle center sz) \<longleftrightarrow> 0 \<le> sz"
  by (simp add: canvas_ok_def drawCustomCircle_def)

lemma drawGroupedCenters_ok: "(\<forall>(c, sz)\<in>set cs. 0 \<le> sz) \<Longrightarrow> canvas_ok (drawGroupedCenters cs)"
  unfolding drawGroupedCenters_def
  by (rule canvas_ok_concat) (auto simp: drawCustomCircle_ok)

lemma drawGroupedCenters_arcs:
  "arcs_of (drawGroupedCenters cs) = map (\<lambda>(c, s). (x c, y c, s / 2)) cs"
  by (induction cs) (auto simp: drawGroupedCenters_def drawCustomCircle_def)

subsection \<open>Claims\<close>

text \<open>
  C23 (functional). \<open>drawGroupedCenters\<close> draws one stroked circle per entry, in
  the order of the entries, centred on the entry's point, with radius half the
  entry's value: the value is the circle's diameter.
\<close>

theorem drawGroupedCenters_circles:
  "arcs_of (drawGroupedCenters cs) = map (\<lambda>(c, s). (x c, y c, s / 2)) cs \<and>
   length (filter (\<lambda>op. op = Stroke) (drawGroupedCenters cs)) = length cs"
proof
  show "arcs_of (drawGroupedCenters cs) = map (\<lambda>(c, s). (x c, y c, s / 2)) cs"
    by (rule drawGroupedCenters_arcs)
  show "length (filter (\<lambda>op. op = Stroke) (drawGroupedCenters cs)) = length cs"
    by (induction cs) (auto simp: drawGroupedCenters_def drawCustomCircle_def)
qed

text \<open>
  C24 (functional). \<open>drawPolygon\<close> opens a path, moves to the first projected
  coordinate, draws lines through the others in order, closes the path and strokes
  it: one \<open>moveTo\<close> for a non-empty list, none for an empty one.
\<close>

theorem drawPolygon_path:
  "path_vertices (drawPolygon coords) = map (\<lambda>(lo, la). (calcX lo, calcY la)) coords \<and>
   count_moves (drawPolygon coords) = (if coords = [] then 0 else 1) \<and>
   hd (drawPolygon coords) = BeginPath \<and>
   drop (length (drawPolygon coords) - 2) (drawPolygon coords) = [ClosePath, Stroke]"
  by (simp add: drawPolygon_def polygonPath_vertices polygonPath_moves)

end
