(* ===== verification/Pipeline.thy ===== *)
theory Pipeline
  imports Drawing
begin

text \<open>
  The body of \<open>main\<close> in \<^verbatim>\<open>index.js\<close>, after the files are read and parsed:
  draw the outline of every district (\<open>bezirk.geometry.coordinates.flat(2)\<close>, a
  MultiPolygon flattened to one list of positions, then \<open>drawPolygon\<close>), project the
  markets with \<open>toPoints\<close>, condense them with the constants \<open>SCAN_RADIUS\<close> and
  \<open>RADIUS_INCREASE\<close>, and draw the condensed centres. The result is the sequence of
  canvas calls written to \<^verbatim>\<open>out/sketch.svg\<close> and the number of circles
  logged; an exception propagates out of \<open>main\<close> before the file is written.
\<close>

record district =
  district_coordinates :: "(real \<times> real) list list list"

definition flat2 :: "'a list list list \<Rightarrow> 'a list" where
  \<comment> \<open>\<open>Array.prototype.flat(2)\<close> on an array nested three deep\<close>
  "flat2 xsss = concat (concat xsss)"

definition drawDistricts :: "district list \<Rightarrow> canvas_op list" where
  "drawDistricts bezirkeDaten =
     concat (map (\<lambda>bezirk. drawPolygon (flat2 (district_coordinates bezirk))) bezirkeDaten)"

definition main :: "district list \<Rightarrow> coordinate list \<Rightarrow> (canvas_op list \<times> nat) js_result" where
  "main bezirkeDaten coords =
     (let outline = drawDistricts bezirkeDaten;
          points = toPoints coords
      in case condensePointsByScanRadius SCAN_RADIUS RADIUS_INCREASE points of
           Inl e \<Rightarrow> Inl e
         | Inr condensedCenters \<Rightarrow>
             Inr (outline @ drawGroupedCenters condensedCenters, length condensedCenters))"

lemma drawDistricts_arcs: "arcs_of (drawDistricts ds) = []"
  by (induction ds) (simp_all add: drawDistricts_def drawPolygon_arcs)

lemma drawDistricts_ok: "canvas_ok (drawDistricts ds)"
  unfolding drawDistricts_def by (rule canvas_ok_concat) (simp add: drawPolygon_ok)

lemma main_ok:
  assumes "main ds coords = Inr (ops, n)"
  shows "canvas_ok ops"
proof -
  let ?cl = "clusters SCAN_RADIUS RADIUS_INCREASE (toPoints coords)"
  have ops: "ops = drawDistricts ds @ drawGroupedCenters (map (\<lambda>(A, r). (centroid A, r)) ?cl)"
    using assms by (auto simp: main_def condensePointsByScanRadius_def condenseLoop_clusters
                               condense_spec_def Let_def split: if_splits)
  have "\<forall>(c, sz)\<in>set (map (\<lambda>(A, r). (centroid A, r)) ?cl). 0 \<le> sz"
  proof (clarsimp)
    fix A r assume "(A, r) \<in> set ?cl"
    then have "SCAN_RADIUS \<le> r" by (rule clusters_radius_ge [rotated]) (simp add: RADIUS_INCREASE_def)
    then show "0 \<le> r" by (simp add: SCAN_RADIUS_def)
  qed
  then show ?thesis
    unfolding ops by (intro canvas_ok_append drawDistricts_ok drawGroupedCenters_ok)
qed

lemma toPoints_Nil_iff: "toPoints cs = [] \<longleftrightarrow> cs = []"
  by (simp add: toPoints_def)

lemmas main_simps = main_def condensePointsByScanRadius_def condenseLoop_clusters toPoints_Nil_iff
  condense_spec_def Let_def

lemma main_Inr:
  assumes "main ds coords = Inr (ops, n)"
  shows "coords \<noteq> [] \<and>
         ops = drawDistricts ds @
                 drawGroupedCenters (condense_spec SCAN_RADIUS RADIUS_INCREASE (toPoints coords)) \<and>
         n = length (clusters SCAN_RADIUS RADIUS_INCREASE (toPoints coords))"
  using assms by (auto simp: main_simps split: if_splits)

lemma toPoints_in_canvas:
  assumes "\<forall>c\<in>set coords. left \<le> lon c \<and> lon c \<le> right \<and> bottom \<le> lat c \<and> lat c \<le> top"
  shows "\<forall>p\<in>set (toPoints coords). 0 \<le> x p \<and> x p \<le> width \<and> 0 \<le> y p \<and> y p \<le> height"
proof
  fix p assume "p \<in> set (toPoints coords)"
  then obtain c where c: "c \<in> set coords" and p: "p = \<lparr>x = calcX (lon c), y = calcY (lat c)\<rparr>"
    by (auto simp: toPoints_def)
  have "WESTLON \<le> lon c" "lon c \<le> EASTLON" "SOUTHLAT \<le> lat c" "lat c \<le> NORTHLAT"
    using assms c by (auto simp: left_def right_def bottom_def top_def)
  then show "0 \<le> x p \<and> x p \<le> width \<and> 0 \<le> y p \<and> y p \<le> height"
    using p calc_in_canvas by simp
qed

lemma length_toPoints: "length (toPoints cs) = length cs"
  by (simp add: toPoints_def)

end
