(* ===== verification/Loading.thy ===== *)
theory Loading
  imports Pipeline
begin

text \<open>
  The inputs of \<open>main\<close> in \<^verbatim>\<open>index.js\<close>. The data directory is a store
  that maps a path to the text of a file, abstracted by what the text parses to
  (\<open>json_text\<close>: a JSON value or a text that is not JSON), or to nothing when the
  file does not exist. The modules \<^verbatim>\<open>lib/load-geojson\<close> and
  \<^verbatim>\<open>lib/read-data\<close> that index.js requires are not part of the repository's
  sources; \<open>loadGeojson\<close> (read and parse a GeoJSON file) and \<open>readData\<close> (read a
  file as text) are modelled from their use: their promise rejects when the file
  cannot be read, and \<open>loadGeojson\<close> rejects when the text is not JSON.
  \<open>loadBezirke\<close> (lines 41--43) and \<open>loadCoords\<close> (lines 55--59) are the code of
  \<open>main\<close> that uses them; an \<open>await\<close> on a rejected promise throws in \<open>main\<close>.
\<close>

datatype 'a json_text = JsonText 'a | NotJson

record geojson =
  features :: "district list"

record markets_json =
  json_coordinates :: "coordinate list"

record data_files =
  geojsonFiles :: "string \<Rightarrow> geojson json_text option"
  jsonFiles :: "string \<Rightarrow> markets_json json_text option"

definition loadGeojson :: "data_files \<Rightarrow> string \<Rightarrow> geojson js_result" where
  "loadGeojson files path =
     (case geojsonFiles files path of
        None \<Rightarrow> Inl (FileError path)
      | Some NotJson \<Rightarrow> Inl (SyntaxError path)
      | Some (JsonText g) \<Rightarrow> Inr g)"

definition readData :: "data_files \<Rightarrow> string \<Rightarrow> markets_json json_text js_result" where
  "readData files path =
     (case jsonFiles files path of None \<Rightarrow> Inl (FileError path) | Some text \<Rightarrow> Inr text)"

definition JSON_parse :: "'a json_text \<Rightarrow> 'a js_result" where
  "JSON_parse text = (case text of JsonText v \<Rightarrow> Inr v | NotJson \<Rightarrow> Inl (SyntaxError ''JSON.parse''))"

definition loadBezirke :: "data_files \<Rightarrow> district list js_result" where
  "loadBezirke files =
     (case loadGeojson files ''./data/bezirksgrenzen.geojson'' of
        Inl e \<Rightarrow> Inl e
      | Inr geojson \<Rightarrow> Inr (features geojson))"

definition loadCoords :: "data_files \<Rightarrow> coordinate list js_result" where
  "loadCoords files =
     (case readData files ''./data/maerkte2.json'' of
        Inl e \<Rightarrow> Inl e
      | Inr json \<Rightarrow>
          (case JSON_parse json of
             Inl e \<Rightarrow> Inl e
           | Inr jsonObj \<Rightarrow> Inr (json_coordinates jsonObj)))"

lemma loadBezirke_eq:
  "loadBezirke files =
     (case geojsonFiles files ''./data/bezirksgrenzen.geojson'' of
        None \<Rightarrow> Inl (FileError ''./data/bezirksgrenzen.geojson'')
      | Some NotJson \<Rightarrow> Inl (SyntaxError ''./data/bezirksgrenzen.geojson'')
      | Some (JsonText g) \<Rightarrow> Inr (features g))"
  by (simp add: loadBezirke_def loadGeojson_def split: option.split json_text.split)

lemma loadCoords_eq:
  "loadCoords files =
     (case jsonFiles files ''./data/maerkte2.json'' of
        None \<Rightarrow> Inl (FileError ''./data/maerkte2.json'')
      | Some NotJson \<Rightarrow> Inl (SyntaxError ''JSON.parse'')
      | Some (JsonText m) \<Rightarrow> Inr (json_coordinates m))"
  by (simp add: loadCoords_def readData_def JSON_parse_def split: option.split json_text.split)

end
