(* ===== verification/CondenseMachine.thy ===== *)
theory CondenseMachine
  imports Condense
begin

text \<open>
  The outer loop of \<open>condensePointsByScanRadius\<close>
  (\<^verbatim>\<open>lib/drawMarketsAndOutline.js\<close>, lines 173--198) as a machine on the state
  the JavaScript keeps: the global \<open>POINTS\<close>, the local \<open>Map\<close> \<open>condensedCenters\<close>
  and the switch \<open>keepCondensing\<close>. \<open>condenseIteration\<close> is one run of the loop
  body, which may throw, and \<open>condense_step\<close> is the step relation of the loop (a
  step exists only while \<open>keepCondensing\<close> holds and the body returns). The
  theory shows that the machine keeps the clustering of \<open>Condense\<close> as an
  invariant and that it stops within \<open>length points\<close> steps with the result of
  \<open>condensePointsByScanRadius\<close>.
\<close>

record condense_state =
  globalPOINTS :: pending
  condensedCenters :: condensed_centers
  keepCondensing :: bool

definition condenseStart :: "point list \<Rightarrow> condense_state" where
  "condenseStart points =
     \<lparr>globalPOINTS = points, condensedCenters = [], keepCondensing = True\<rparr>"

definition condenseIteration ::
  "real \<Rightarrow> real \<Rightarrow> condense_state \<Rightarrow> condense_state js_result" where
  "condenseIteration scanRadius radiusIncrease s =
     (case findNextPointsToCondense scanRadius radiusIncrease (globalPOINTS s) of
        (condensedPointsObj, pts') \<Rightarrow>
          (case calculateCenter (allFoundPoints condensedPointsObj) of
             Inl e \<Rightarrow> Inl e
           | Inr condensedCenter \<Rightarrow>
               Inr (s\<lparr>globalPOINTS := pts',
                      condensedCenters :=
                        condensedCenters s @ [(condensedCenter, radius condensedPointsObj)],
                      keepCondensing :=
                        (if length pts' = 0 then False else keepCondensing s)\<rparr>)))"

inductive condense_step :: "real \<Rightarrow> real \<Rightarrow> condense_state \<Rightarrow> condense_state \<Rightarrow> bool" where
  iterate: "\<lbrakk>keepCondensing s; condenseIteration b i s = Inr t\<rbrakk> \<Longrightarrow> condense_step b i s t"

inductive_cases condense_step_from: "condense_step b i s t"

subsection \<open>One iteration\<close>

lemma condense_spec_Nil [simp]: "condense_spec b i [] = []"
  by (simp add: condense_spec_def)

lemma findNext_set:
  assumes "findNextPointsToCondense b i P = (obj, P')"
  shows "set P' \<subseteq> set P"
proof (cases P)
  case (Cons c Q)
  let ?P1 = "filter (\<lambda>p. p \<noteq> c) Q"
  obtain G r P2 where g: "grow i c b ?P1 = (G, r, P2)" by (metis prod_cases3)
  have "set P2 \<subseteq> set Q" using grow_set [OF g] by auto
  with assms g Cons show ?thesis
    by (auto simp: findNext_grow Let_def split: if_splits)
qed (use assms in \<open>simp add: findNext_Nil\<close>)

lemma condense_spec_unfold:
  assumes "P \<noteq> []" and "findNextPointsToCondense b i P = (obj, P')"
  shows "\<exists>cen. calculateCenter (allFoundPoints obj) = Inr cen \<and>
               condense_spec b i P = (cen, radius obj) # condense_spec b i P'"
proof (cases "calculateCenter (allFoundPoints obj)")
  case (Inl e)
  have "condenseLoop b i P [] = Inl e"
    using assms(2) Inl by (simp add: condenseLoop.simps [of b i P "[]"])
  then show ?thesis using assms(1) by (simp add: condenseLoop_clusters)
next
  case (Inr cen)
  have "condenseLoop b i P [] =
          (if P' = [] then Inr [(cen, radius obj)] else condenseLoop b i P' [(cen, radius obj)])"
    using assms(2) Inr by (simp add: condenseLoop.simps [of b i P "[]"])
  then have "condense_spec b i P = (cen, radius obj) # condense_spec b i P'"
    using assms(1) by (simp add: condenseLoop_clusters condense_spec_def split: if_splits)
  with Inr show ?thesis by blast
qed

lemma condenseIteration_Nil:
  "globalPOINTS s = [] \<Longrightarrow> condenseIteration b i s = Inl undefined_x_error"
  by (simp add: condenseIteration_def findNext_Nil calculateCenter_def)

lemma condenseIteration_Cons:
  assumes "globalPOINTS s \<noteq> []"
    and "findNextPointsToCondense b i (globalPOINTS s) = (obj, P')"
  shows "\<exists>cen. condenseIteration b i s =
                 Inr (s\<lparr>globalPOINTS := P',
                        condensedCenters := condensedCenters s @ [(cen, radius obj)],
                        keepCondensing := (P' \<noteq> [] \<and> keepCondensing s)\<rparr>) \<and>
               condense_spec b i (globalPOINTS s) = (cen, radius obj) # condense_spec b i P' \<and>
               set P' \<subseteq> set (globalPOINTS s) \<and>
               (P' \<noteq> [] \<longrightarrow> length P' < length (globalPOINTS s))"
proof -
  obtain cen where c: "calculateCenter (allFoundPoints obj) = Inr cen"
    and sp: "condense_spec b i (globalPOINTS s) = (cen, radius obj) # condense_spec b i P'"
    using condense_spec_unfold [OF assms] by blast
  show ?thesis
    using c sp findNext_set [OF assms(2)] findNext_shorter [OF assms(2)] assms(2)
    by (intro exI [of _ cen]) (simp add: condenseIteration_def)
qed

subsection \<open>The invariant and the run of the machine\<close>

text \<open>
  \<open>condense_inv b i P s\<close>: the pending points are input points, the loop goes on
  exactly while points are pending, and the centres already in the \<open>Map\<close>
  followed by the clustering of the pending points are the clustering of the input.
\<close>

definition condense_inv :: "real \<Rightarrow> real \<Rightarrow> point list \<Rightarrow> condense_state \<Rightarrow> bool" where
  "condense_inv b i P s \<longleftrightarrow>
     set (globalPOINTS s) \<subseteq> set P \<and> (keepCondensing s \<longleftrightarrow> globalPOINTS s \<noteq> []) \<and>
     condensedCenters s @ condense_spec b i (globalPOINTS s) = condense_spec b i P"

lemma condense_step_next:
  assumes "keepCondensing s" and "globalPOINTS s \<noteq> []"
  obtains obj :: found_points and P' cen where
    "condense_step b i s (s\<lparr>globalPOINTS := P',
                            condensedCenters := condensedCenters s @ [(cen, radius obj)],
                            keepCondensing := (P' \<noteq> [])\<rparr>)"
    "condenseIteration b i s =
       Inr (s\<lparr>globalPOINTS := P', condensedCenters := condensedCenters s @ [(cen, radius obj)],
              keepCondensing := (P' \<noteq> [])\<rparr>)"
    "condense_spec b i (globalPOINTS s) = (cen, radius obj) # condense_spec b i P'"
    "set P' \<subseteq> set (globalPOINTS s)" "P' \<noteq> [] \<Longrightarrow> length P' < length (globalPOINTS s)"
proof -
  obtain obj P' where f: "findNextPointsToCondense b i (globalPOINTS s) = (obj, P')"
    by (metis prod.exhaust)
  from condenseIteration_Cons [OF assms(2) f] obtain cen where c:
    "condenseIteration b i s =
       Inr (s\<lparr>globalPOINTS := P', condensedCenters := condensedCenters s @ [(cen, radius obj)],
              keepCondensing := (P' \<noteq> [] \<and> keepCondensing s)\<rparr>)"
    "condense_spec b i (globalPOINTS s) = (cen, radius obj) # condense_spec b i P'"
    "set P' \<subseteq> set (globalPOINTS s)" "P' \<noteq> [] \<longrightarrow> length P' < length (globalPOINTS s)"
    by blast
  show thesis
    by (rule that [of P' cen obj]) (use c assms(1) in \<open>auto intro: condense_step.iterate\<close>)
qed

lemma condense_step_inv:
  assumes "condense_step b i s t" and "condense_inv b i P s"
  shows "condense_inv b i P t"
proof -
  from assms(1) have k: "keepCondensing s" and it: "condenseIteration b i s = Inr t"
    by (auto elim: condense_step_from)
  with assms(2) have ne: "globalPOINTS s \<noteq> []" by (simp add: condense_inv_def)
  obtain obj :: found_points and P' cen where
    "condenseIteration b i s =
       Inr (s\<lparr>globalPOINTS := P', condensedCenters := condensedCenters s @ [(cen, radius obj)],
              keepCondensing := (P' \<noteq> [])\<rparr>)"
    and sp: "condense_spec b i (globalPOINTS s) = (cen, radius obj) # condense_spec b i P'"
    and st: "set P' \<subseteq> set (globalPOINTS s)"
    by (rule condense_step_next [where b = b and i = i, OF k ne]) blast
  with it have "t = s\<lparr>globalPOINTS := P', condensedCenters := condensedCenters s @ [(cen, radius obj)],
                       keepCondensing := (P' \<noteq> [])\<rparr>" by simp
  then show ?thesis using assms(2) sp st by (auto simp: condense_inv_def)
qed

lemma condense_reach_inv:
  "(condense_step b i)\<^sup>*\<^sup>* s t \<Longrightarrow> condense_inv b i P s \<Longrightarrow> condense_inv b i P t"
  by (induction rule: rtranclp_induct) (auto intro: condense_step_inv)

lemma condense_inv_start: "P \<noteq> [] \<Longrightarrow> condense_inv b i P (condenseStart P)"
  by (simp add: condense_inv_def condenseStart_def)

lemma condense_stops:
  assumes "keepCondensing s" and "globalPOINTS s \<noteq> []"
  shows "\<exists>n t. n \<le> length (globalPOINTS s) \<and> (condense_step b i ^^ n) s t \<and>
               \<not> keepCondensing t \<and> globalPOINTS t = [] \<and>
               condensedCenters t = condensedCenters s @ condense_spec b i (globalPOINTS s)"
  using assms
proof (induction "length (globalPOINTS s)" arbitrary: s rule: less_induct)
  case less
  obtain obj :: found_points and P' cen where
    st: "condense_step b i s (s\<lparr>globalPOINTS := P',
                               condensedCenters := condensedCenters s @ [(cen, radius obj)],
                               keepCondensing := (P' \<noteq> [])\<rparr>)"
    (is "condense_step b i s ?t")
    and sp: "condense_spec b i (globalPOINTS s) = (cen, radius obj) # condense_spec b i P'"
    and sh: "P' \<noteq> [] \<Longrightarrow> length P' < length (globalPOINTS s)"
    by (rule condense_step_next [where b = b and i = i, OF less.prems]) blast
  show ?case
  proof (cases "P' = []")
    case True
    have "(condense_step b i ^^ 1) s ?t" using st by (simp only: relpowp_1)
    moreover have "1 \<le> length (globalPOINTS s)" using less.prems(2) by (simp add: Suc_leI)
    ultimately show ?thesis using True sp by fastforce
  next
    case False
    then obtain n t where n: "n \<le> length P'" "(condense_step b i ^^ n) ?t t"
      and t: "\<not> keepCondensing t" "globalPOINTS t = []"
             "condensedCenters t = condensedCenters ?t @ condense_spec b i P'"
      using less.hyps [of ?t] sh by auto
    have "(condense_step b i ^^ Suc n) s t" using st n(2) by (rule relpowp_Suc_I2)
    moreover have "Suc n \<le> length (globalPOINTS s)" using n(1) sh [OF False] by simp
    ultimately show ?thesis using t sp by fastforce
  qed
qed

subsection \<open>Claims on the outer loop\<close>

text \<open>
  C31 (liveness). From the start state of a non-empty input the loop stops:
  within \<open>length points\<close> steps it reaches a state with \<open>keepCondensing\<close> false,
  where the module-global \<open>POINTS\<close> is left empty and the \<open>Map\<close> holds what
  \<open>condensePointsByScanRadius\<close> returns.
\<close>

theorem condense_machine_stops:
  assumes "points \<noteq> []"
  shows "\<exists>n t. n \<le> length points \<and> (condense_step b i ^^ n) (condenseStart points) t \<and>
               \<not> keepCondensing t \<and> globalPOINTS t = [] \<and>
               condensePointsByScanRadius b i points = Inr (condensedCenters t)"
  using condense_stops [of "condenseStart points" b i] assms
  by (simp add: condenseStart_def condensePointsByScanRadius_def condenseLoop_clusters) metis

text \<open>
  C32 (invariant). In every state the loop reaches from a non-empty input, the
  pending points are input points, \<open>keepCondensing\<close> holds exactly while points
  are pending, and the entries already in the \<open>Map\<close>, followed by the clustering of
  the pending points, are the clustering of the whole input.
\<close>

theorem condense_reach_invariant:
  assumes "points \<noteq> []" and "(condense_step b i)\<^sup>*\<^sup>* (condenseStart points) s"
  shows "set (globalPOINTS s) \<subseteq> set points \<and> (keepCondensing s \<longleftrightarrow> globalPOINTS s \<noteq> []) \<and>
         condensedCenters s @ condense_spec b i (globalPOINTS s) = condense_spec b i points"
  using condense_reach_inv [OF assms(2) condense_inv_start [OF assms(1)]]
  by (simp add: condense_inv_def)

subsection \<open>Witnesses\<close>

theorem condense_machine_stops_witness:
  "[\<lparr>x = 1, y = 2\<rparr>] \<noteq> [] \<and>
   (\<exists>n t. n \<le> length [\<lparr>x = 1, y = 2\<rparr>] \<and>
          (condense_step 4 2 ^^ n) (condenseStart [\<lparr>x = 1, y = 2\<rparr>]) t \<and>
          \<not> keepCondensing t \<and> globalPOINTS t = [] \<and>
          condensePointsByScanRadius 4 2 [\<lparr>x = 1, y = 2\<rparr>] = Inr (condensedCenters t))"
  using condense_machine_stops [of "[\<lparr>x = 1, y = 2\<rparr>]" 4 2] by simp

theorem condense_reach_invariant_witness:
  "[\<lparr>x = 1, y = 2\<rparr>] \<noteq> [] \<and>
   (condense_step 4 2)\<^sup>*\<^sup>* (condenseStart [\<lparr>x = 1, y = 2\<rparr>]) (condenseStart [\<lparr>x = 1, y = 2\<rparr>]) \<and>
   condensedCenters (condenseStart [\<lparr>x = 1, y = 2\<rparr>]) @
     condense_spec 4 2 (globalPOINTS (condenseStart [\<lparr>x = 1, y = 2\<rparr>])) =
   condense_spec 4 2 [\<lparr>x = 1, y = 2\<rparr>]"
proof -
  have h: "[\<lparr>x = 1, y = 2\<rparr>] \<noteq> []"
    "(condense_step 4 2)\<^sup>*\<^sup>* (condenseStart [\<lparr>x = 1, y = 2\<rparr>]) (condenseStart [\<lparr>x = 1, y = 2\<rparr>])"
    by simp_all
  show ?thesis using h condense_reach_invariant [OF h] by simp
qed

end
