(* ===== verification/Script.thy ===== *)
theory Script
  imports Loading CondenseMachine
begin

text \<open>
  The script \<^verbatim>\<open>index.js\<close> around \<open>main\<close>: it creates an SVG canvas of
  \<open>canvasWidth \<times> canvasHeight\<close> (lines 17--18), fixes the output path
  \<^verbatim>\<open>./out/sketch.svg\<close> (line 19, resolved against the working directory,
  which is not modelled), runs \<open>main\<close>, which loads the districts and the
  markets (\<open>Loading\<close>), draws on the canvas, logs the number of circles and
  writes the canvas to the output file (line 86), and rethrows any error twice
  (lines 87--89 and 95--97), so that it ends the process as an unhandled
  rejection. \<open>mainRun\<close> is the part of \<open>main\<close> after the inputs are loaded,
  \<open>runScript\<close> the whole run on a data directory; a \<open>script_result\<close> is what
  can be observed of a run: the file written (its path and the canvas serialised
  into it), the count logged, and the uncaught error. The markets file is read
  after the outlines are drawn; the drawing only touches the canvas, which is
  discarded when the read fails, so the model reads both inputs first.
\<close>

record canvas =
  canvas_width :: real
  canvas_height :: real
  canvas_calls :: "canvas_op list"

definition currentCanvas :: canvas where
  "currentCanvas = \<lparr>canvas_width = canvasWidth, canvas_height = canvasHeight, canvas_calls = []\<rparr>"

definition outFilePath :: string where
  "outFilePath = ''./out/sketch.svg''"

record script_result =
  written_file :: "(string \<times> canvas) option"
  circles_logged :: "nat option"
  uncaught :: "js_error option"

definition uncaughtRun :: "js_error \<Rightarrow> script_result" where
  "uncaughtRun error = \<lparr>written_file = None, circles_logged = None, uncaught = Some error\<rparr>"

definition mainRun :: "district list \<Rightarrow> coordinate list \<Rightarrow> script_result" where
  "mainRun bezirkeDaten coords =
     (case main bezirkeDaten coords of
        Inl err \<Rightarrow> uncaughtRun err
      | Inr (ops, n) \<Rightarrow>
          \<lparr>written_file = Some (outFilePath,
                                currentCanvas\<lparr>canvas_calls := canvas_calls currentCanvas @ ops\<rparr>),
           circles_logged = Some n, uncaught = None\<rparr>)"

definition runScript :: "data_files \<Rightarrow> script_result" where
  "runScript files =
     (case loadBezirke files of
        Inl err \<Rightarrow> uncaughtRun err
      | Inr bezirkeDaten \<Rightarrow>
          (case loadCoords files of
             Inl err \<Rightarrow> uncaughtRun err
           | Inr coords \<Rightarrow> mainRun bezirkeDaten coords))"

lemma mainRun_main:
  "mainRun ds coords =
     (case main ds coords of
        Inl err \<Rightarrow> uncaughtRun err
      | Inr (ops, n) \<Rightarrow>
          \<lparr>written_file = Some (outFilePath, currentCanvas\<lparr>canvas_calls := ops\<rparr>),
           circles_logged = Some n, uncaught = None\<rparr>)"
proof -
  have "canvas_calls currentCanvas = []" by (simp add: currentCanvas_def)
  then show ?thesis by (simp add: mainRun_def split: sum.split)
qed

lemma main_Inr_arcs:
  "main ds coords = Inr (ops, n) \<Longrightarrow> length (arcs_of ops) = n"
  by (auto simp: main_simps drawDistricts_arcs drawGroupedCenters_arcs split: if_splits)

lemma mainRun_outcome:
  "uncaught (mainRun ds coords) = (if coords = [] then Some undefined_x_error else None) \<and>
   (written_file (mainRun ds coords) \<noteq> None \<longleftrightarrow> uncaught (mainRun ds coords) = None) \<and>
   circles_logged (mainRun ds coords) =
     map_option (\<lambda>(_, cv). length (arcs_of (canvas_calls cv))) (written_file (mainRun ds coords))"
proof (cases "main ds coords")
  case (Inl err)
  then have "coords = [] \<and> err = undefined_x_error" by (auto simp: main_simps split: if_splits)
  then show ?thesis using Inl by (simp add: mainRun_main uncaughtRun_def)
next
  case (Inr r)
  obtain ops n where r: "main ds coords = Inr (ops, n)" using Inr by (cases r) simp
  then have "coords \<noteq> []" by (auto simp: main_simps split: if_splits)
  then show ?thesis using r main_Inr_arcs [OF r] by (simp add: mainRun_main)
qed

lemma mainRun_wellformed:
  "pred_option
     (\<lambda>(path, cv). path = outFilePath \<and> canvas_width cv = canvasWidth \<and>
                   canvas_height cv = canvasHeight \<and> canvas_ok (canvas_calls cv))
     (written_file (mainRun ds coords))"
proof (cases "main ds coords")
  case (Inr r)
  obtain ops n where r: "r = (ops, n)" by (cases r)
  have "canvas_ok ops" using Inr r by (simp add: main_ok)
  then show ?thesis using Inr r by (simp add: mainRun_main currentCanvas_def)
qed (simp add: mainRun_main uncaughtRun_def)

subsection \<open>Claims on the script\<close>

text \<open>
  C33 (type). Every file the script writes is \<^verbatim>\<open>./out/sketch.svg\<close>, holds a
  canvas of the configured size, and its drawing calls are a well-formed sequence
  of paths: each opened after the previous one was stroked, each \<open>lineTo\<close> after
  a \<open>moveTo\<close>, each \<open>arc\<close> with a non-negative radius, the last path stroked.
\<close>

theorem script_svg_wellformed:
  "pred_option
     (\<lambda>(path, cv). path = outFilePath \<and> canvas_width cv = canvasWidth \<and>
                   canvas_height cv = canvasHeight \<and> canvas_ok (canvas_calls cv))
     (written_file (runScript files))"
  by (simp add: runScript_def uncaughtRun_def mainRun_wellformed split: sum.split)

text \<open>
  C34 (error). The error that escapes a run is the first failure in program order:
  the district file missing or not JSON, then the markets file missing or not JSON,
  then the \<open>TypeError\<close> that \<open>condensePointsByScanRadius\<close> throws on an empty
  market list; both \<open>catch\<close> blocks rethrow it. The SVG file is written exactly
  when no error escapes, and the count logged is then the number of circles in it.
\<close>

theorem script_outcome:
  "uncaught (runScript files) =
     (case geojsonFiles files ''./data/bezirksgrenzen.geojson'' of
        None \<Rightarrow> Some (FileError ''./data/bezirksgrenzen.geojson'')
      | Some NotJson \<Rightarrow> Some (SyntaxError ''./data/bezirksgrenzen.geojson'')
      | Some (JsonText g) \<Rightarrow>
          (case jsonFiles files ''./data/maerkte2.json'' of
             None \<Rightarrow> Some (FileError ''./data/maerkte2.json'')
           | Some NotJson \<Rightarrow> Some (SyntaxError ''JSON.parse'')
           | Some (JsonText m) \<Rightarrow>
               (if json_coordinates m = [] then Some undefined_x_error else None))) \<and>
   (written_file (runScript files) \<noteq> None \<longleftrightarrow> uncaught (runScript files) = None) \<and>
   circles_logged (runScript files) =
     map_option (\<lambda>(_, cv). length (arcs_of (canvas_calls cv))) (written_file (runScript files))"
  using mainRun_outcome
  by (auto simp: runScript_def loadBezirke_eq loadCoords_eq uncaughtRun_def
           split: option.split json_text.split)

end
