(* ===== verification/Spec2Isabelle.thy ===== *)
theory Spec2Isabelle
  imports Script
begin

text \<open>
  \<^bold>\<open>A verification model of TracingTheCity's Berlin markets sketch.\<close>

  \<^bold>\<open>The program.\<close> \<^verbatim>\<open>index.js\<close> reads the district boundaries of Berlin
  (GeoJSON MultiPolygons) and a list of market positions, draws every district outline
  on a canvas, condenses the markets into circles and writes the canvas as SVG.
  \<^verbatim>\<open>lib/drawMarketsAndOutline.js\<close> holds the projection from degrees to canvas
  coordinates (\<open>calcX\<close>, \<open>calcY\<close>, \<open>toPoints\<close>,
  \<open>fromGeoJsonCoordinatesToPoints\<close>), the drawing (\<open>drawCustomCircle\<close>,
  \<open>drawPolygon\<close>, \<open>drawGroupedCenters\<close>) and the condenser: 
  \<open>condensePointsByScanRadius\<close> repeatedly calls \<open>findNextPointsToCondense\<close>,
  which takes the first pending point as seed, removes it (and its coordinate-equal
  copies) from the module-global list \<open>POINTS\<close>, and scans \<open>POINTS\<close> around the
  fixed seed at a radius that grows by \<open>RADIUS_INCREASE\<close> after every scan that
  finds something; \<open>calculateCenter\<close> averages the points found and the centre is
  stored with the final radius in a \<open>Map\<close>. \<^verbatim>\<open>lib/constants.js\<close> holds
  the canvas size, the scan parameters and the bounding box.

  \<^bold>\<open>Theories.\<close>
  \<^item> \<open>Prelude\<close>: the exception type \<open>js_error\<close>, the result type
    \<open>'a js_result = js_error + 'a\<close>, the collection \<open>eval_simps\<close> that evaluates
    the model on concrete inputs, and lemmas on square roots, filters, multisets and the bounds of a mean.
  \<^item> \<open>Constants\<close>: every constant of \<^verbatim>\<open>constants.js\<close>, the exported
    aliases \<open>left\<close>, \<open>top\<close>, \<open>right\<close>, \<open>bottom\<close> of the bounding box, and
    the record \<open>point\<close> (class \<open>Point\<close>).
  \<^item> \<open>Geometry\<close>: \<open>getDistance\<close>, \<open>isPointWithinRadius\<close>, \<open>equals\<close>,
    \<open>notEquals\<close>, and \<open>calculateCenter\<close> with its summing loop \<open>sumPoints\<close>;
    the abstract centre \<open>centroid\<close>.
  \<^item> \<open>Pending\<close>: \<open>isEmpty\<close>, \<open>scanForPointsWithinRadius\<close>, \<open>notInList\<close>,
    \<open>removePoint\<close>, \<open>removePoints\<close>, each taking the current \<open>POINTS\<close> and
    returning the new one instead of assigning the global.
  \<^item> \<open>Scan\<close>: the growth loop of \<open>findNextPointsToCondense\<close>. Its state is the
    record \<open>scan_state\<close> (\<open>POINTS\<close>, \<open>totalFoundPoints\<close>,
    \<open>currentScanRadius\<close>, \<open>keepScanning\<close>); \<open>scanIteration\<close> is one pass of
    the loop body, \<open>scanLoop\<close> the loop, \<open>scan_step\<close> the same body as a step
    relation of the machine GROWING/DONE with reachable states \<open>scan_reach\<close> and
    invariant \<open>scan_inv\<close>; \<open>grow\<close> is the reference recursion the loop computes;
    then \<open>findNextPointsToCondense\<close> itself, returning the record
    \<open>found_points\<close> (\<open>{allFoundPoints, radius}\<close>) and the new \<open>POINTS\<close>.
  \<^item> \<open>Condense\<close>: \<open>condenseLoop\<close> and \<open>condensePointsByScanRadius\<close>; the
    abstract clustering \<open>clusters\<close> (member lists, seed first, with radii) and its
    image \<open>condense_spec\<close>; \<open>seeded_clusters P cl\<close>, which pins a list of
    clusters to the input (the seed of each is the first input point not in an
    earlier one, and the multiplicities of the members are those of the input,
    seeds once); the refinement and the properties of the partition.
  \<^item> \<open>CondenseMachine\<close>: the outer \<open>while (keepCondensing)\<close> loop as a
    machine on the record \<open>condense_state\<close> (\<open>POINTS\<close>,
    \<open>condensedCenters\<close>, \<open>keepCondensing\<close>): \<open>condenseStart\<close> (lines
    173--178), \<open>condenseIteration\<close> (the body, lines 182--195, which may throw),
    and the step relation \<open>condense_step\<close>; the invariant \<open>condense_inv\<close> ties
    every reachable state to the clustering.
  \<^item> \<open>Projection\<close>: \<open>calcX\<close>, \<open>calcY\<close>, \<open>toPoints\<close>,
    \<open>fromGeoJsonCoordinatesToPoints\<close>, and their inverses \<open>lonOfX\<close>,
    \<open>latOfY\<close>.
  \<^item> \<open>Drawing\<close>: the canvas calls as the datatype \<open>canvas_op\<close>;
    \<open>drawCustomCircle\<close>, \<open>drawPolygon\<close> (with its indexed loop
    \<open>polygonPath\<close>), \<open>drawGroupedCenters\<close>, the observations \<open>arcs_of\<close>,
    \<open>path_vertices\<close>, \<open>count_moves\<close>, and the path protocol of the 2D
    context: \<open>canvas_from\<close> follows the pen (\<open>Idle\<close>, \<open>Begun\<close>,
    \<open>Tracing\<close>) through a call sequence and \<open>canvas_ok\<close> accepts the
    well-formed ones.
  \<^item> \<open>Pipeline\<close>: \<open>main\<close> of \<^verbatim>\<open>index.js\<close> after parsing:
    \<open>drawDistricts\<close> (with \<open>flat2\<close> for \<open>flat(2)\<close>), then condensation of the
    projected markets with \<open>SCAN_RADIUS\<close> and \<open>RADIUS_INCREASE\<close>, then drawing.
  \<^item> \<open>Loading\<close>: the inputs of \<open>main\<close>. The data directory
    \<open>data_files\<close> maps a path to a file's text, abstracted by what it parses to
    (\<open>json_text\<close>). \<open>loadGeojson\<close> and \<open>readData\<close>, whose modules are not in the
    repository's sources, are modelled from their use: a missing file rejects
    with \<open>FileError\<close>, a GeoJSON text that is not JSON with \<open>SyntaxError\<close>.
    \<open>loadBezirke\<close> (lines 41--43) and \<open>loadCoords\<close> (lines 55--59, with
    \<open>JSON_parse\<close>) are the code of \<open>main\<close> that calls them.
  \<^item> \<open>Script\<close>: the rest of \<^verbatim>\<open>index.js\<close>: the canvas
    \<open>currentCanvas\<close> of size \<open>canvasWidth \<times> canvasHeight\<close>, the output path
    \<open>outFilePath\<close>, \<open>mainRun\<close> (the part of \<open>main\<close> after loading) and
    \<open>runScript\<close> (a whole run on a data directory), whose \<open>script_result\<close>
    records the file written by \<open>fs.writeFileSync\<close> (path and canvas), the count
    passed to \<open>console.log\<close>, and the error both \<open>catch\<close> blocks rethrow
    (\<open>uncaughtRun\<close>).
  \<^item> \<open>Spec2Isabelle\<close> (this theory): the properties of the whole program.

  \<^bold>\<open>Modelling choices.\<close> JavaScript numbers are reals: no rounding, no NaN or
  infinities (the program never divides by zero: \<open>calculateCenter\<close> always gets at
  least one point). \<open>undefined\<close> in a list of points is \<open>None\<close> of a
  \<open>point option\<close>, and reading \<open>.x\<close> of it is the \<open>TypeError\<close> value. The global
  \<open>POINTS\<close> is explicit state. The \<open>Map\<close> of centres is an insertion-ordered list,
  because its keys are fresh objects and \<open>set\<close> never overwrites. The canvas
  context is the list of calls made on it. The module constants \<open>SCAN_RADIUS\<close> and
  \<open>RADIUS_INCREASE\<close>, which \<open>findNextPointsToCondense\<close> reads, are parameters
  of it and of \<open>condensePointsByScanRadius\<close> (the specification's
  \<open>baseRadius\<close>, \<open>radiusIncrement\<close>); \<open>main\<close> passes the constants 4 and 2.

  \<^bold>\<open>Loops and termination.\<close> No fuel is needed: every loop is a
  \<^theory_text>\<open>function\<close> with a proved measure. For \<open>scanLoop\<close> it is
  \<open>|POINTS| + (if keepScanning then 1 else 0)\<close>: a scan that finds something
  removes at least one pending point, and a scan that finds nothing clears the flag.
  For \<open>condenseLoop\<close> it is \<open>|POINTS|\<close>, because each pass removes at least the
  seed. \<open>grow\<close> and \<open>clusters\<close> also recurse on shorter lists. The outer
  loop as a step relation stops within \<open>length points\<close> steps (C31).

  \<^bold>\<open>What is proved.\<close> The program refines the abstract clustering (C1),
  which partitions the input into disjoint clusters (C2). It terminates on every
  non-empty input (C3) and throws on the empty one (C4). The properties of the
  clusters behind the output are stated for clusters pinned to the input by
  \<open>seeded_clusters\<close>, so that the seed and the members of each cluster are
  those the program uses: later clusters lie outside the recorded radius around
  earlier seeds (C5), radii are the base radius plus at most one increment per
  member and exactly the base radius for a lone seed (C7), and there are between
  one entry and one entry per distinct input point (C8). Members lie within the
  radius minus one increment (C6). One call of \<open>findNextPointsToCondense\<close>
  partitions the pending list (C9) and records exactly the radius of its last,
  empty, scan (C10). The growth loop's invariant holds by rule induction (C11),
  and the loop equals the reference recursion (C12). Removal by \<open>notInList\<close> is
  filtering (C13), and \<open>calculateCenter\<close> averages or throws (C14). C15, C17 and
  C18 are the specification's cases: copies of one point give one entry, two far
  apart points two entries, and points all within the base radius of the seed one
  entry with the base radius plus one increment (the specification's chained
  example is of this kind). C16 composes projection, condensation and drawing:
  markets inside the exported bounding box give circles centred inside the canvas
  (a centroid is an average, \<open>centroid_box\<close>), with radius at least half the base
  radius. C19 to C22 cover the projection: bounds, round trip, orientation and the
  two readers. C23 and C24 cover the drawing. C25 relates the count \<open>main\<close> logs
  to the circles drawn. C26 shows that a district's parts are joined into one
  path. C27 shows that \<open>getDistance\<close> is a metric. C28 is the ordering of the
  output: the entries' seeds are distinct, appear in input order (a subsequence,
  \<open>HOL-Library.Sublist\<close>), and the first is the first input point. C29 bounds
  every radius by the base radius plus \<open>n - 1\<close> increments. C30 counts copies
  exactly: a seed is absorbed once, and any other point as often as it occurs. For
  the outer loop as a machine, C31 shows liveness: from a non-empty input it stops
  within \<open>length points\<close> steps, leaving the module-global \<open>POINTS\<close> empty and
  holding the program's result; C32 gives the invariant of every reachable state.
  C33 shows that every SVG file the script writes is a well-formed sequence of
  paths on a canvas of the configured size (in particular no \<open>arc\<close> gets a
  negative radius, which would throw); C34 that the error escaping a run is the
  first failure in program order (the district file, then the markets file, then
  the \<open>TypeError\<close> of an empty market list), that the file is written exactly
  when no error escapes, and that the logged count is the number of circles in
  the file.

  \<^bold>\<open>Not modelled.\<close> The inside of \<open>readData\<close> and \<open>loadGeojson\<close> (modules
  outside the repository's sources: file encodings, partial reads) and the JSON
  grammar (a text is abstracted by what it parses to), the
  \<open>require\<close>/\<open>module.exports\<close> plumbing of the three files, the SVG text \<open>toBuffer\<close> renders from the canvas calls and the resolution of
  the output path against the working directory, floating-point rounding,
  district geometries of type Polygon (for which \<open>flat(2)\<close> flattens to bare
  numbers, so that \<open>coords[i][0]\<close> is \<open>undefined\<close> and the projection yields
  NaN, which the reals of this model do not contain; the canvas ignores such
  calls), and the code left in comments.

  \<^bold>\<open>Plan for further work.\<close> The floating-point effect on the inclusive radius
  test. A model of Polygon geometries in \<open>drawDistricts\<close>. Optimality statements
  the greedy procedure does not promise (stated as counterexamples).
\<close>

section \<open>Properties of the whole program\<close>

lemma main_one_market:
  "main [] [\<lparr>lon = 13.4, lat = 52.5\<rparr>] =
     Inr ([BeginPath, Arc (calcX 13.4) (calcY 52.5) 2 0 (2 * pi), Stroke], 1)"
  by (simp add: main_simps drawDistricts_def toPoints_def condense_spec_def
                drawGroupedCenters_def drawCustomCircle_def SCAN_RADIUS_def)

text \<open>
  C25 (bounds). When \<open>main\<close> succeeds, the number it logs is the number of circles
  in the drawing, at least one and at most the number of markets.
\<close>

theorem main_circle_count:
  assumes "main ds coords = Inr (ops, n)"
  shows "length (arcs_of ops) = n \<and> 1 \<le> n \<and> n \<le> length coords"
proof -
  have ne: "coords \<noteq> []" using assms by (auto simp: main_simps split: if_splits)
  let ?P = "toPoints coords"
  have ops: "ops = drawDistricts ds @ drawGroupedCenters (condense_spec SCAN_RADIUS RADIUS_INCREASE ?P)"
    and n: "n = length (clusters SCAN_RADIUS RADIUS_INCREASE ?P)"
    using assms ne by (simp_all add: main_simps)
  have "length (arcs_of ops) = n"
    using ops n by (simp add: drawDistricts_arcs drawGroupedCenters_arcs condense_spec_def)
  moreover have "n \<le> length coords"
    using n clusters_length [of SCAN_RADIUS RADIUS_INCREASE ?P] by (simp add: length_toPoints)
  moreover have "1 \<le> n"
  proof -
    obtain c Q where "?P = c # Q" using ne by (cases coords) (auto simp: toPoints_def)
    then have "clusters SCAN_RADIUS RADIUS_INCREASE ?P \<noteq> []"
      by (cases "filter (\<lambda>p. p \<noteq> c) Q = []") (auto split: prod.splits)
    then show ?thesis using n by (simp add: Suc_leI)
  qed
  ultimately show ?thesis by blast
qed

text \<open>
  C26 (functional). A district whose MultiPolygon has two non-empty parts is drawn as
  one path: \<open>flat(2)\<close> joins the rings into one position list, so there is a single
  \<open>moveTo\<close> and a \<open>lineTo\<close> runs from the end of the first ring to the start of the
  second.
\<close>

theorem district_rings_joined:
  assumes "r1 \<noteq> []" and "r2 \<noteq> []"
  shows "count_moves (drawDistricts [\<lparr>district_coordinates = [[r1], [r2]]\<rparr>]) = 1 \<and>
         path_vertices (drawDistricts [\<lparr>district_coordinates = [[r1], [r2]]\<rparr>]) =
           map (\<lambda>(lo, la). (calcX lo, calcY la)) (r1 @ r2)"
  using assms
  by (simp add: drawDistricts_def drawPolygon_def flat2_def polygonPath_vertices polygonPath_moves)

text \<open>
  C16 (bounds). When every market lies inside the bounding box \<open>left\<close>, \<open>right\<close>,
  \<open>bottom\<close>, \<open>top\<close> exported by \<^verbatim>\<open>constants.js\<close> and \<open>main\<close>
  succeeds, every circle it draws is centred inside the canvas
  \<open>[0, width] \<times> [0, height]\<close> (a cluster's centroid is an average of projected
  markets) and has a radius of at least half the base scan radius.
\<close>

theorem circles_inside_canvas:
  assumes box: "\<forall>c\<in>set coords. left \<le> lon c \<and> lon c \<le> right \<and> bottom \<le> lat c \<and> lat c \<le> top"
    and m: "main ds coords = Inr (ops, n)"
  shows "\<forall>(cx, cy, r)\<in>set (arcs_of ops).
           0 \<le> cx \<and> cx \<le> width \<and> 0 \<le> cy \<and> cy \<le> height \<and> SCAN_RADIUS / 2 \<le> r"
proof -
  let ?cl = "clusters SCAN_RADIUS RADIUS_INCREASE (toPoints coords)"
  have ops: "ops = drawDistricts ds @ drawGroupedCenters (map (\<lambda>(A, r). (centroid A, r)) ?cl)"
    using main_Inr [OF m] by (simp add: condense_spec_def)
  have pts: "\<forall>p\<in>set (toPoints coords). 0 \<le> x p \<and> x p \<le> width \<and> 0 \<le> y p \<and> y p \<le> height"
    using box by (rule toPoints_in_canvas)
  have circle: "0 \<le> x (centroid A) \<and> x (centroid A) \<le> width \<and>
                0 \<le> y (centroid A) \<and> y (centroid A) \<le> height \<and> SCAN_RADIUS \<le> r"
    if cl: "(A, r) \<in> set ?cl" for A r
  proof -
    have "A \<noteq> []" and "set A \<subseteq> set (toPoints coords)"
      using clusters_nonempty [OF cl] clusters_member_subset [OF cl] by auto
    then have "0 \<le> x (centroid A) \<and> x (centroid A) \<le> width \<and>
               0 \<le> y (centroid A) \<and> y (centroid A) \<le> height"
      using pts by (intro centroid_box) auto
    moreover have "SCAN_RADIUS \<le> r"
      using cl by (rule clusters_radius_ge [rotated]) (simp add: RADIUS_INCREASE_def)
    ultimately show ?thesis by simp
  qed
  show ?thesis
    unfolding ops by (auto simp: drawDistricts_arcs drawGroupedCenters_arcs dest: circle)
qed

subsection \<open>Witnesses\<close>

theorem main_circle_count_witness:
  "main [] [\<lparr>lon = 13.4, lat = 52.5\<rparr>] =
     Inr ([BeginPath, Arc (calcX 13.4) (calcY 52.5) 2 0 (2 * pi), Stroke], 1) \<and>
   length (arcs_of [BeginPath, Arc (calcX 13.4) (calcY 52.5) 2 0 (2 * pi), Stroke]) = 1 \<and>
   (1::nat) \<le> 1 \<and> 1 \<le> length [\<lparr>lon = 13.4, lat = 52.5\<rparr>]"
proof -
  show ?thesis using main_one_market main_circle_count [OF main_one_market] by simp
qed

theorem district_rings_joined_witness:
  "[(13, 52.4), (13.1, 52.4)] \<noteq> ([] :: (real \<times> real) list) \<and>
   [(13.5, 52.5)] \<noteq> ([] :: (real \<times> real) list) \<and>
   count_moves (drawDistricts [\<lparr>district_coordinates = [[[(13, 52.4), (13.1, 52.4)]], [[(13.5, 52.5)]]]\<rparr>]) = 1 \<and>
   path_vertices (drawDistricts [\<lparr>district_coordinates = [[[(13, 52.4), (13.1, 52.4)]], [[(13.5, 52.5)]]]\<rparr>]) =
     [(calcX 13, calcY 52.4), (calcX 13.1, calcY 52.4), (calcX 13.5, calcY 52.5)]"
proof -
  have h: "[(13, 52.4), (13.1, 52.4)] \<noteq> ([] :: (real \<times> real) list)" "[(13.5, 52.5)] \<noteq> ([] :: (real \<times> real) list)"
    by simp_all
  show ?thesis using h district_rings_joined [OF h] by simp
qed

theorem circles_inside_canvas_witness:
  "left \<le> 13.4 \<and> 13.4 \<le> right \<and> bottom \<le> 52.5 \<and> 52.5 \<le> top \<and>
   main [] [\<lparr>lon = 13.4, lat = 52.5\<rparr>] =
     Inr ([BeginPath, Arc (calcX 13.4) (calcY 52.5) 2 0 (2 * pi), Stroke], 1) \<and>
   0 \<le> calcX 13.4 \<and> calcX 13.4 \<le> width \<and> 0 \<le> calcY 52.5 \<and> calcY 52.5 \<le> height \<and>
   SCAN_RADIUS / 2 \<le> 2"
proof -
  have box: "\<forall>c\<in>set [\<lparr>lon = 13.4, lat = 52.5\<rparr>].
               left \<le> lon c \<and> lon c \<le> right \<and> bottom \<le> lat c \<and> lat c \<le> top"
    by (simp add: constants_defs)
  have "left \<le> 13.4 \<and> 13.4 \<le> right \<and> bottom \<le> 52.5 \<and> 52.5 \<le> top"
    by (simp add: constants_defs)
  then show ?thesis
    using main_one_market circles_inside_canvas [OF box main_one_market] by simp
qed

end
